theory Spec2Isabelle
  imports Main
begin

section \<open>Smoothed-aggregation hierarchy construction (cusp/precond/aggregation)\<close>

text \<open>
  A shallow embedding of \<^verbatim>\<open>smoothed_aggregation.inl\<close>: the overloads of
  \<^verbatim>\<open>detail::setup_level_matrix\<close>, \<^verbatim>\<open>smoothed_aggregation::extend_hierarchy\<close>,
  \<^verbatim>\<open>smoothed_aggregation::sa_initialize\<close> and the two constructors that build a
  hierarchy.  The object is a record that every member function takes and returns; the
  six strategy objects of \<^verbatim>\<open>sa_options\<close> are function-valued fields of the options
  record.  Sizes (\<^verbatim>\<open>size_t\<close>) are natural numbers: the code only compares and copies
  them.  The converting copy constructor builds no hierarchy and is left out.
\<close>

subsection \<open>Matrices and arrays\<close>

text \<open>
  A sparse matrix is described by the three fields of \<^verbatim>\<open>cusp::detail::matrix_base\<close>
  (\<^verbatim>\<open>num_rows\<close>, \<^verbatim>\<open>num_cols\<close>, \<^verbatim>\<open>num_entries\<close>) and by its stored entries, kept as
  coordinate triples whatever the storage format (for \<^verbatim>\<open>dia_matrix\<close> the members
  \<^verbatim>\<open>diagonal_offsets\<close> and \<^verbatim>\<open>values\<close>).  The storage format is part of the C++ type
  and not of the value; it only matters for the overload chosen by
  \<^verbatim>\<open>setup_level_matrix\<close>.
\<close>

record 'v matrix =
  num_rows :: nat
  num_cols :: nat
  num_entries :: nat
  entries :: "(nat \<times> nat \<times> 'v) list"

text \<open>The default constructor: \<^verbatim>\<open>dia_matrix(void) {}\<close>, "Construct an empty dia_matrix".\<close>

definition empty_matrix :: "'v matrix" where
  "empty_matrix = \<lparr>num_rows = 0, num_cols = 0, num_entries = 0, entries = []\<rparr>"

text \<open>
  Modelled from the spec: \<^verbatim>\<open>matrix_base::resize(num_rows, num_cols, num_entries)\<close> is
  declared in \<^verbatim>\<open>cusp/detail/matrix_base.h\<close>, which is not among the sources.  The
  spec has it re-establish the dimensions and nonzero count "without reallocating its
  backing storage", and the call site says "Resize first level of multilevel solver but
  avoid allocations": the three fields are set and the stored entries are left alone.
\<close>

definition matrix_base_resize :: "nat \<Rightarrow> nat \<Rightarrow> nat \<Rightarrow> 'v matrix \<Rightarrow> 'v matrix" where
  "matrix_base_resize r c e M = M\<lparr>num_rows := r, num_cols := c, num_entries := e\<rparr>"

text \<open>
  Modelled from the spec: \<^verbatim>\<open>swap\<close> and the converting \<^verbatim>\<open>operator=\<close> are declared in
  \<^verbatim>\<open>dia_matrix.h\<close> ("Swap the contents of two dia_matrix objects", "Assignment from
  another matrix") and defined outside the sources.  Both take the pair (destination,
  source) and return the pair after the call: the swap exchanges the two contents, the
  assignment gives the destination the source's matrix and leaves the source as it is.
\<close>

definition matrix_swap :: "'v matrix \<Rightarrow> 'v matrix \<Rightarrow> 'v matrix \<times> 'v matrix" where
  "matrix_swap dst src = (src, dst)"

definition matrix_assign :: "'v matrix \<Rightarrow> 'v matrix \<Rightarrow> 'v matrix \<times> 'v matrix" where
  "matrix_assign dst src = (src, src)"

text \<open>
  \<^verbatim>\<open>array1d::resize(n)\<close> keeps the first \<open>n\<close> elements and value-initialises the new
  ones; \<^verbatim>\<open>constant_array(n, v)\<close> reads as \<open>n\<close> copies of \<open>v\<close>.
\<close>

definition array1d_resize :: "nat \<Rightarrow> 'v::zero list \<Rightarrow> 'v list" where
  "array1d_resize n xs = take n xs @ replicate (n - length xs) 0"

definition constant_array :: "nat \<Rightarrow> 'v \<Rightarrow> 'v list" where
  "constant_array n v = replicate n v"

text \<open>
  \<^verbatim>\<open>v.back()\<close> as an lvalue: the last element is replaced by its image.  On an empty
  vector the C++ is undefined; the model leaves the vector empty, and
  \<open>sa_initialize\<close> below only reaches it after a \<^verbatim>\<open>push_back\<close>.
\<close>

definition update_back :: "('a \<Rightarrow> 'a) \<Rightarrow> 'a list \<Rightarrow> 'a list" where
  "update_back f xs = (if xs = [] then [] else butlast xs @ [f (last xs)])"

subsection \<open>Smoother, solver, levels\<close>

text \<open>
  \<^verbatim>\<open>SmootherType\<close> and \<^verbatim>\<open>SolverType\<close> are template parameters.  What the builder
  does with them is construct one from a matrix and store it, so a smoother or solver is
  the record of how it was constructed.
\<close>

datatype 'v smoother = default_smoother | SmootherType "'v matrix"

datatype 'v solver = default_solver | SolverType "'v matrix"

text \<open>
  \<^verbatim>\<open>Parent::level\<close> (the solver-facing level of \<^verbatim>\<open>multilevel\<close>) with its members
  \<^verbatim>\<open>R\<close>, \<^verbatim>\<open>A\<close>, \<^verbatim>\<open>P\<close>, \<^verbatim>\<open>x\<close>, \<^verbatim>\<open>b\<close>, \<^verbatim>\<open>residual\<close>, \<^verbatim>\<open>smoother\<close>, and
  \<^verbatim>\<open>sa_level\<close> (the level record of the builder) with \<^verbatim>\<open>A_\<close>, \<^verbatim>\<open>aggregates\<close>,
  \<^verbatim>\<open>B\<close>, \<^verbatim>\<open>rho_DinvA\<close>.  The one-letter members carry a prefix here.
\<close>

record 'v level =
  level_R :: "'v matrix"
  level_A :: "'v matrix"
  level_P :: "'v matrix"
  level_x :: "'v list"
  level_b :: "'v list"
  residual :: "'v list"
  smoother :: "'v smoother"

definition new_level :: "'v level" where
  "new_level = \<lparr>level_R = empty_matrix, level_A = empty_matrix, level_P = empty_matrix,
                level_x = [], level_b = [], residual = [], smoother = default_smoother\<rparr>"

record 'v sa_level =
  sa_A :: "'v matrix"
  aggregates :: "int list"
  sa_B :: "'v list"
  rho_DinvA :: 'v

text \<open>
  Modelled from the spec: \<^verbatim>\<open>sa_level\<close> is declared outside the sources; a new level
  record has an empty operator, empty arrays and a value-initialised scale factor.
\<close>

definition new_sa_level :: "'v::zero sa_level" where
  "new_sa_level = \<lparr>sa_A = empty_matrix, aggregates = [], sa_B = [], rho_DinvA = 0\<rparr>"

subsection \<open>Options and strategy calls\<close>

text \<open>
  Each strategy writes its results through reference parameters.  A strategy is a
  function from what it reads to what it writes; \<^verbatim>\<open>aggregate\<close> and
  \<^verbatim>\<open>smooth_prolongator\<close> also read the previous contents of \<^verbatim>\<open>aggregates\<close> and
  \<^verbatim>\<open>rho_DinvA\<close>, which are not fresh objects.
\<close>

record 'v sa_options =
  min_level_size :: nat
  max_levels :: nat
  strength_of_connection :: "'v matrix \<Rightarrow> 'v matrix"
  aggregate :: "'v matrix \<Rightarrow> int list \<Rightarrow> int list"
  fit_candidates :: "int list \<Rightarrow> 'v list \<Rightarrow> 'v matrix \<times> 'v list"
  smooth_prolongator :: "'v matrix \<Rightarrow> 'v matrix \<Rightarrow> 'v \<Rightarrow> 'v matrix \<times> 'v"
  form_restriction :: "'v matrix \<Rightarrow> 'v matrix"
  galerkin_product :: "'v matrix \<Rightarrow> 'v matrix \<Rightarrow> 'v matrix \<Rightarrow> 'v matrix"

text \<open>A strategy invocation with the arguments the strategy reads.\<close>

datatype 'v call =
    strength_of_connection_call "'v matrix"
  | aggregate_call "'v matrix" "int list"
  | fit_candidates_call "int list" "'v list"
  | smooth_prolongator_call "'v matrix" "'v matrix" 'v
  | form_restriction_call "'v matrix"
  | galerkin_product_call "'v matrix" "'v matrix" "'v matrix"

subsection \<open>The object\<close>

text \<open>
  The members of \<^verbatim>\<open>smoothed_aggregation\<close> and of its base \<^verbatim>\<open>multilevel\<close>: the
  dimensions set by \<^verbatim>\<open>Parent::resize\<close>, \<^verbatim>\<open>Parent::levels\<close>, \<^verbatim>\<open>Parent::solver\<close> and
  \<^verbatim>\<open>sa_levels\<close>, with the capacity of that vector (\<open>sa_capacity\<close>), which decides
  whether a \<^verbatim>\<open>push_back\<close> reallocates.  The field \<open>invoked\<close> is not a member: it lists,
  in order, the calls made on the strategy objects.  The capacity of \<^verbatim>\<open>Parent::levels\<close>
  (the \<^verbatim>\<open>reserve\<close>) is not modelled: no reference into that vector is held across a
  \<^verbatim>\<open>push_back\<close>.
\<close>

record 'v sa_state =
  ml_num_rows :: nat
  ml_num_cols :: nat
  ml_num_entries :: nat
  levels :: "'v level list"
  solver :: "'v solver"
  sa_levels :: "'v sa_level list"
  sa_capacity :: nat
  invoked :: "'v call list"

definition fresh :: "'v sa_state" where
  "fresh = \<lparr>ml_num_rows = 0, ml_num_cols = 0, ml_num_entries = 0, levels = [],
            solver = default_solver, sa_levels = [], sa_capacity = 0, invoked = []\<rparr>"

text \<open>
  The hierarchy held by the object: every member, without the call list and the
  capacity.
\<close>

definition hierarchy ::
  "'v sa_state \<Rightarrow> nat \<times> nat \<times> nat \<times> 'v level list \<times> 'v solver \<times> 'v sa_level list" where
  "hierarchy s = (ml_num_rows s, ml_num_cols s, ml_num_entries s, levels s, solver s, sa_levels s)"

subsection \<open>References into sa\_levels\<close>

text \<open>
  \<^verbatim>\<open>extend_hierarchy(const MatrixType& A)\<close> takes its operator by reference.  The first
  call passes a COO view of the input, which lives outside the object; the \<^verbatim>\<open>while\<close>
  loop passes \<^verbatim>\<open>sa_levels.back().A_\<close>, an element of the vector to which
  \<^verbatim>\<open>extend_hierarchy\<close> itself appends.  When that \<^verbatim>\<open>push_back\<close> reallocates, the
  reference is dangling afterwards, and \<^verbatim>\<open>A.num_rows\<close> is read once more after it.  What
  the language and the library leave open is a parameter of the model: the capacity
  that a full vector of a given capacity grows to (\<open>grow\<close>), and the number that a read
  of \<^verbatim>\<open>num_rows\<close> through a dangling reference finds, by the number of level records
  present at the read (\<open>stale_num_rows\<close>).  \<^verbatim>\<open>resize(0)\<close> keeps the capacity.
\<close>

record memory =
  grow :: "nat \<Rightarrow> nat"
  stale_num_rows :: "nat \<Rightarrow> nat"

datatype 'v matrix_ref = external "'v matrix" | sa_levels_back

definition deref :: "'v matrix_ref \<Rightarrow> 'v sa_state \<Rightarrow> 'v matrix" where
  "deref r s = (case r of external M \<Rightarrow> M | sa_levels_back \<Rightarrow> sa_A (last (sa_levels s)))"

definition into_sa_levels :: "'v matrix_ref \<Rightarrow> bool" where
  "into_sa_levels r = (case r of external M \<Rightarrow> False | sa_levels_back \<Rightarrow> True)"

text \<open>\<^verbatim>\<open>push_back\<close> on a vector of size \<open>n\<close> and capacity \<open>c\<close>.\<close>

definition push_back_reallocates :: "nat \<Rightarrow> nat \<Rightarrow> bool" where
  "push_back_reallocates n c \<longleftrightarrow> \<not> n < c"

definition push_back_capacity :: "memory \<Rightarrow> nat \<Rightarrow> nat \<Rightarrow> nat" where
  "push_back_capacity mem n c =
     (if push_back_reallocates n c then max (Suc n) (grow mem c) else c)"

subsection \<open>setup\_level\_matrix\<close>

text \<open>
  Two overloads: \<^verbatim>\<open>(Matrix& dst, Matrix& src)\<close> swaps, \<^verbatim>\<open>(Matrix1& dst, Matrix2& src)\<close>
  assigns.  Overload resolution picks the first exactly when both arguments have the same
  type; \<open>same_type\<close> says whether \<^verbatim>\<open>SolveMatrixType\<close> and \<^verbatim>\<open>SetupMatrixType\<close> are the
  same type in the instantiation at hand.  The destinations of the three calls are the
  members \<^verbatim>\<open>R\<close>, \<^verbatim>\<open>P\<close> and \<^verbatim>\<open>A\<close> of a solver-facing level, all of type
  \<^verbatim>\<open>SolveMatrixType\<close>, and the sources are of type \<^verbatim>\<open>SetupMatrixType\<close>, so one flag
  decides all three.
\<close>

definition setup_level_matrix :: "bool \<Rightarrow> 'v matrix \<Rightarrow> 'v matrix \<Rightarrow> 'v matrix \<times> 'v matrix" where
  "setup_level_matrix same_type dst src =
     (if same_type then matrix_swap dst src else matrix_assign dst src)"

subsection \<open>extend\_hierarchy\<close>

text \<open>
  The reference \<open>A\<close> is read as \<open>M\<close> up to the \<^verbatim>\<open>push_back\<close> on \<^verbatim>\<open>sa_levels\<close>: nothing
  before it writes the operator of a level record.  If the \<^verbatim>\<open>push_back\<close> does not
  reallocate, the referent is still in place and unchanged when \<^verbatim>\<open>A.num_rows\<close> sizes
  the residual.  If it reallocates and \<open>A\<close> refers into \<^verbatim>\<open>sa_levels\<close>, that read is
  through a dangling reference, and the residual gets the size the memory yields.
\<close>

definition extend_hierarchy ::
  "memory \<Rightarrow> bool \<Rightarrow> 'v sa_options \<Rightarrow> 'v matrix_ref \<Rightarrow> 'v::zero sa_state \<Rightarrow> 'v sa_state" where
  "extend_hierarchy mem same_type opts A s =
     (let M = deref A s;
          C = strength_of_connection opts M;
          aggregates0 = replicate (num_rows C) (0::int);
          ags = aggregate opts C aggregates0;
          B_fine = sa_B (last (sa_levels s));
          (T, B_coarse) = fit_candidates opts ags B_fine;
          rho0 = rho_DinvA (last (sa_levels s));
          (P, rho) = smooth_prolongator opts M T rho0;
          R = form_restriction opts P;
          RAP = galerkin_product opts R M P;
          s1 = s\<lparr>invoked := invoked s @
                 [strength_of_connection_call M, aggregate_call C aggregates0,
                  fit_candidates_call ags B_fine, smooth_prolongator_call M T rho0,
                  form_restriction_call P, galerkin_product_call R M P]\<rparr>;
          s2 = s1\<lparr>sa_levels :=
                 update_back (\<lambda>l. l\<lparr>rho_DinvA := rho, aggregates := ags\<rparr>) (sa_levels s1)\<rparr>;
          dangling = (into_sa_levels A \<and>
                      push_back_reallocates (length (sa_levels s2)) (sa_capacity s2));
          s3 = s2\<lparr>sa_levels := sa_levels s2 @ [new_sa_level\<lparr>sa_A := RAP, sa_B := B_coarse\<rparr>],
                  sa_capacity := push_back_capacity mem (length (sa_levels s2)) (sa_capacity s2)\<rparr>;
          A_num_rows = (if dangling then stale_num_rows mem (length (sa_levels s3))
                        else num_rows M);
          s4 = s3\<lparr>levels :=
                 update_back
                   (\<lambda>l. l\<lparr>level_R := fst (setup_level_matrix same_type (level_R l) R),
                          level_P := fst (setup_level_matrix same_type (level_P l) P),
                          residual := array1d_resize A_num_rows (residual l)\<rparr>)
                   (levels s3)\<rparr>;
          s5 = s4\<lparr>levels := levels s4 @ [new_level]\<rparr>;
          n = num_rows (sa_A (last (sa_levels s5)))
      in s5\<lparr>levels :=
              update_back (\<lambda>l. l\<lparr>level_x := array1d_resize n (level_x l),
                                  level_b := array1d_resize n (level_b l)\<rparr>)
                (levels s5)\<rparr>)"

subsection \<open>sa\_initialize\<close>

text \<open>The \<^verbatim>\<open>while\<close> loop of \<^verbatim>\<open>sa_initialize\<close>.\<close>

function coarsen_loop ::
  "memory \<Rightarrow> bool \<Rightarrow> 'v sa_options \<Rightarrow> 'v::zero sa_state \<Rightarrow> 'v sa_state" where
  "coarsen_loop mem same_type opts s =
     (if min_level_size opts < num_rows (sa_A (last (sa_levels s))) \<and>
         length (sa_levels s) < max_levels opts
      then coarsen_loop mem same_type opts
             (extend_hierarchy mem same_type opts sa_levels_back s)
      else s)"
  by pat_completeness auto
termination
  by (relation "measure (\<lambda>(mem, t, opts, s). max_levels opts - length (sa_levels s))")
     (auto simp: extend_hierarchy_def update_back_def Let_def split: prod.splits)

text \<open>The body and the \<^verbatim>\<open>for\<close> loop over \<^verbatim>\<open>lvl = 1 .. sa_levels.size() - 1\<close>.\<close>

definition setup_level :: "bool \<Rightarrow> nat \<Rightarrow> 'v sa_state \<Rightarrow> 'v sa_state" where
  "setup_level same_type lvl s =
     (let (dst, src) = setup_level_matrix same_type (level_A (levels s ! lvl))
                         (sa_A (sa_levels s ! lvl));
          s1 = s\<lparr>levels := (levels s)[lvl := (levels s ! lvl)\<lparr>level_A := dst\<rparr>],
                 sa_levels := (sa_levels s)[lvl := (sa_levels s ! lvl)\<lparr>sa_A := src\<rparr>]\<rparr>
      in s1\<lparr>levels :=
              update_back (\<lambda>l. l\<lparr>smoother := SmootherType (level_A (levels s1 ! lvl))\<rparr>)
                (levels s1)\<rparr>)"

function setup_levels :: "bool \<Rightarrow> nat \<Rightarrow> 'v sa_state \<Rightarrow> 'v sa_state" where
  "setup_levels same_type lvl s =
     (if lvl < length (sa_levels s)
      then setup_levels same_type (Suc lvl) (setup_level same_type lvl s)
      else s)"
  by pat_completeness auto
termination
  by (relation "measure (\<lambda>(t, lvl, s). length (sa_levels s) - lvl)")
     (auto simp: setup_level_def update_back_def Let_def split: prod.splits)

text \<open>
  \<^verbatim>\<open>sa_initialize(A, B)\<close>.  \<^verbatim>\<open>CooView A_(A)\<close> is a view of the same matrix, so the
  first \<^verbatim>\<open>extend_hierarchy\<close> receives a reference to \<open>A0\<close> itself, outside the object.
\<close>

definition sa_initialize ::
  "memory \<Rightarrow> bool \<Rightarrow> 'v sa_options \<Rightarrow> 'v matrix \<Rightarrow> 'v list \<Rightarrow> 'v::zero sa_state \<Rightarrow>
     'v sa_state" where
  "sa_initialize mem same_type opts A0 B0 s =
     (let s1 = (if 0 < length (sa_levels s) then s\<lparr>sa_levels := [], levels := []\<rparr> else s);
          s2 = s1\<lparr>ml_num_rows := num_rows A0, ml_num_cols := num_cols A0,
                  ml_num_entries := num_entries A0\<rparr>;
          s3 = s2\<lparr>levels := levels s2 @ [new_level]\<rparr>;
          s4 = s3\<lparr>sa_levels := sa_levels s3 @ [new_sa_level\<lparr>sa_B := B0\<rparr>],
                  sa_capacity := push_back_capacity mem (length (sa_levels s3)) (sa_capacity s3)\<rparr>;
          s5 = (if min_level_size opts < num_rows A0
                then (let t = extend_hierarchy mem same_type opts (external A0) s4
                      in t\<lparr>levels := update_back (\<lambda>l. l\<lparr>smoother := SmootherType A0\<rparr>) (levels t)\<rparr>)
                else s4);
          s6 = coarsen_loop mem same_type opts s5;
          s7 = s6\<lparr>solver := SolverType (sa_A (last (sa_levels s6)))\<rparr>;
          s8 = setup_levels same_type 1 s7
      in s8\<lparr>levels := (levels s8)[0 := (levels s8 ! 0)
              \<lparr>level_A := matrix_base_resize (num_rows A0) (num_cols A0) (num_entries A0)
                            (level_A (levels s8 ! 0))\<rparr>]\<rparr>)"

text \<open>\<^verbatim>\<open>sa_initialize(A)\<close>: the candidate vector is \<^verbatim>\<open>constant_array(A.num_rows, 1)\<close>.\<close>

definition sa_initialize_A ::
  "memory \<Rightarrow> bool \<Rightarrow> 'v sa_options \<Rightarrow> 'v matrix \<Rightarrow> 'v::{zero,one} sa_state \<Rightarrow> 'v sa_state" where
  "sa_initialize_A mem same_type opts A0 s =
     sa_initialize mem same_type opts A0 (constant_array (num_rows A0) 1) s"

text \<open>The constructors \<^verbatim>\<open>smoothed_aggregation(A, sa_options)\<close> and \<^verbatim>\<open>(A, B, sa_options)\<close>.\<close>

definition smoothed_aggregation_A ::
  "memory \<Rightarrow> bool \<Rightarrow> 'v matrix \<Rightarrow> 'v sa_options \<Rightarrow> 'v::{zero,one} sa_state" where
  "smoothed_aggregation_A mem same_type A0 opts = sa_initialize_A mem same_type opts A0 fresh"

definition smoothed_aggregation ::
  "memory \<Rightarrow> bool \<Rightarrow> 'v matrix \<Rightarrow> 'v list \<Rightarrow> 'v sa_options \<Rightarrow> 'v::zero sa_state" where
  "smoothed_aggregation mem same_type A0 B0 opts = sa_initialize mem same_type opts A0 B0 fresh"


declare coarsen_loop.simps [simp del] setup_levels.simps [simp del]

section \<open>Auxiliary definitions\<close>

subsection \<open>The results of one strategy chain\<close>

text \<open>
  The values that one run of \<open>extend_hierarchy\<close> on the operator \<open>M\<close> obtains from the
  strategies, as functions of \<open>M\<close> and of the candidate vector and scale factor found on
  the last level record.
\<close>

definition chain_aggregates :: "'v sa_options \<Rightarrow> 'v matrix \<Rightarrow> int list" where
  "chain_aggregates opts M =
     aggregate opts (strength_of_connection opts M)
       (replicate (num_rows (strength_of_connection opts M)) 0)"

definition chain_T :: "'v sa_options \<Rightarrow> 'v matrix \<Rightarrow> 'v list \<Rightarrow> 'v matrix" where
  "chain_T opts M B = fst (fit_candidates opts (chain_aggregates opts M) B)"

definition chain_B_coarse :: "'v sa_options \<Rightarrow> 'v matrix \<Rightarrow> 'v list \<Rightarrow> 'v list" where
  "chain_B_coarse opts M B = snd (fit_candidates opts (chain_aggregates opts M) B)"

definition chain_P :: "'v sa_options \<Rightarrow> 'v matrix \<Rightarrow> 'v list \<Rightarrow> 'v \<Rightarrow> 'v matrix" where
  "chain_P opts M B rho = fst (smooth_prolongator opts M (chain_T opts M B) rho)"

definition chain_rho :: "'v sa_options \<Rightarrow> 'v matrix \<Rightarrow> 'v list \<Rightarrow> 'v \<Rightarrow> 'v" where
  "chain_rho opts M B rho = snd (smooth_prolongator opts M (chain_T opts M B) rho)"

definition chain_R :: "'v sa_options \<Rightarrow> 'v matrix \<Rightarrow> 'v list \<Rightarrow> 'v \<Rightarrow> 'v matrix" where
  "chain_R opts M B rho = form_restriction opts (chain_P opts M B rho)"

definition chain_RAP :: "'v sa_options \<Rightarrow> 'v matrix \<Rightarrow> 'v list \<Rightarrow> 'v \<Rightarrow> 'v matrix" where
  "chain_RAP opts M B rho =
     galerkin_product opts (chain_R opts M B rho) M (chain_P opts M B rho)"

text \<open>The number of rows that sizes the residual buffer (the last read of \<^verbatim>\<open>A.num_rows\<close>).\<close>

definition residual_rows :: "memory \<Rightarrow> 'v matrix_ref \<Rightarrow> 'v sa_state \<Rightarrow> nat" where
  "residual_rows mem r s =
     (if into_sa_levels r \<and> push_back_reallocates (length (sa_levels s)) (sa_capacity s)
      then stale_num_rows mem (Suc (length (sa_levels s)))
      else num_rows (deref r s))"

subsection \<open>The phases of sa\_initialize\<close>

text \<open>
  \<open>sa_initialize\<close> in four steps: the reset and the two \<^verbatim>\<open>push_back\<close>s (\<open>sa_start\<close>),
  the first level (\<open>sa_first\<close>), the state when the \<^verbatim>\<open>while\<close> loop ends
  (\<open>sa_coarsened\<close>), and the final resize of level 0 (\<open>sa_finish\<close>).  Lemma
  \<open>sa_initialize_phases\<close> below shows that \<open>sa_initialize\<close> is their composition with the
  solver assignment and the \<^verbatim>\<open>for\<close> loop.
\<close>

definition sa_start ::
  "memory \<Rightarrow> 'v matrix \<Rightarrow> 'v list \<Rightarrow> 'v::zero sa_state \<Rightarrow> 'v sa_state" where
  "sa_start mem A0 B0 s =
     (let s1 = (if 0 < length (sa_levels s) then s\<lparr>sa_levels := [], levels := []\<rparr> else s);
          s2 = s1\<lparr>ml_num_rows := num_rows A0, ml_num_cols := num_cols A0,
                  ml_num_entries := num_entries A0\<rparr>;
          s3 = s2\<lparr>levels := levels s2 @ [new_level]\<rparr>
      in s3\<lparr>sa_levels := sa_levels s3 @ [new_sa_level\<lparr>sa_B := B0\<rparr>],
            sa_capacity := push_back_capacity mem (length (sa_levels s3)) (sa_capacity s3)\<rparr>)"

definition sa_first ::
  "memory \<Rightarrow> bool \<Rightarrow> 'v sa_options \<Rightarrow> 'v matrix \<Rightarrow> 'v::zero sa_state \<Rightarrow> 'v sa_state" where
  "sa_first mem t opts A0 s =
     (if min_level_size opts < num_rows A0
      then (let u = extend_hierarchy mem t opts (external A0) s
            in u\<lparr>levels := update_back (\<lambda>l. l\<lparr>smoother := SmootherType A0\<rparr>) (levels u)\<rparr>)
      else s)"

definition sa_coarsened ::
  "memory \<Rightarrow> bool \<Rightarrow> 'v sa_options \<Rightarrow> 'v matrix \<Rightarrow> 'v list \<Rightarrow> 'v::zero sa_state \<Rightarrow> 'v sa_state" where
  "sa_coarsened mem t opts A0 B0 s = coarsen_loop mem t opts (sa_first mem t opts A0 (sa_start mem A0 B0 s))"

definition sa_finish :: "'v matrix \<Rightarrow> 'v sa_state \<Rightarrow> 'v sa_state" where
  "sa_finish A0 s =
     s\<lparr>levels := (levels s)[0 := (levels s ! 0)
         \<lparr>level_A := matrix_base_resize (num_rows A0) (num_cols A0) (num_entries A0)
                       (level_A (levels s ! 0))\<rparr>]\<rparr>"

subsection \<open>Invariants\<close>

text \<open>
  \<open>coarsening_inv\<close> holds from the two \<^verbatim>\<open>push_back\<close>s to the end of the \<^verbatim>\<open>while\<close>
  loop: both vectors have the same, non-zero length (so every \<^verbatim>\<open>back()\<close> and every
  \<^verbatim>\<open>levels[lvl]\<close> of the code is in range), no solver-facing operator and not the
  operator of level record 0 has been assigned, and level 0 has no smoother.
  \<open>transfer_inv t s i u\<close> relates the state \<open>u\<close> of the \<^verbatim>\<open>for\<close> loop before iteration
  \<open>i\<close> to the state \<open>s\<close> at its start.  \<open>dim_chain\<close> is the chain of shapes during
  coarsening, \<open>shape_contracts\<close> the shapes promised by the strategies, and
  \<open>aggregate_call_ok\<close> says that a recorded call, if it is a call of \<^verbatim>\<open>aggregate\<close>, received
  a strength matrix and a zero-filled array of its row count.
\<close>

definition coarsening_inv :: "'v sa_state \<Rightarrow> bool" where
  "coarsening_inv s \<longleftrightarrow>
     length (levels s) = length (sa_levels s) \<and> sa_levels s \<noteq> [] \<and>
     sa_A (sa_levels s ! 0) = empty_matrix \<and>
     (\<forall>k < length (levels s). level_A (levels s ! k) = empty_matrix) \<and>
     smoother (levels s ! 0) = default_smoother"

definition transfer_inv :: "bool \<Rightarrow> 'v sa_state \<Rightarrow> nat \<Rightarrow> 'v sa_state \<Rightarrow> bool" where
  "transfer_inv t s i u \<longleftrightarrow>
     1 \<le> i \<and> length (levels u) = length (levels s) \<and>
     length (sa_levels u) = length (sa_levels s) \<and>
     solver u = solver s \<and> invoked u = invoked s \<and>
     ml_num_rows u = ml_num_rows s \<and> ml_num_cols u = ml_num_cols s \<and>
     ml_num_entries u = ml_num_entries s \<and>
     smoother (levels u ! 0) = smoother (levels s ! 0) \<and>
     (\<forall>k < length (levels s).
        level_R (levels u ! k) = level_R (levels s ! k) \<and>
        level_P (levels u ! k) = level_P (levels s ! k) \<and>
        aggregates (sa_levels u ! k) = aggregates (sa_levels s ! k) \<and>
        level_A (levels u ! k) =
          (if 1 \<le> k \<and> k < i then sa_A (sa_levels s ! k) else level_A (levels s ! k)) \<and>
        sa_A (sa_levels u ! k) =
          (if 1 \<le> k \<and> k < i \<and> t then level_A (levels s ! k) else sa_A (sa_levels s ! k)))"

definition shape_contracts :: "'v sa_options \<Rightarrow> bool" where
  "shape_contracts opts \<longleftrightarrow>
     (\<forall>M. num_rows (strength_of_connection opts M) = num_rows M) \<and>
     (\<forall>C ags. length (aggregate opts C ags) = length ags) \<and>
     (\<forall>ags B. num_rows (fst (fit_candidates opts ags B)) = length ags) \<and>
     (\<forall>M T rho. num_rows (fst (smooth_prolongator opts M T rho)) = num_rows T) \<and>
     (\<forall>P. num_rows (form_restriction opts P) = num_cols P \<and>
          num_cols (form_restriction opts P) = num_rows P) \<and>
     (\<forall>R M P. num_rows (galerkin_product opts R M P) = num_rows R)"

definition dim_chain :: "'v matrix \<Rightarrow> 'v sa_state \<Rightarrow> bool" where
  "dim_chain A u \<longleftrightarrow>
     (\<forall>k. Suc k < length (sa_levels u) \<longrightarrow>
        num_rows (level_R (levels u ! k)) = num_cols (level_P (levels u ! k)) \<and>
        num_cols (level_P (levels u ! k)) = num_rows (sa_A (sa_levels u ! Suc k)) \<and>
        num_cols (level_R (levels u ! k)) = num_rows (level_P (levels u ! k)) \<and>
        num_rows (level_P (levels u ! k)) =
          (if k = 0 then num_rows A else num_rows (sa_A (sa_levels u ! k))) \<and>
        length (aggregates (sa_levels u ! k)) =
          (if k = 0 then num_rows A else num_rows (sa_A (sa_levels u ! k))))"

definition aggregate_call_ok :: "'v sa_options \<Rightarrow> 'v call \<Rightarrow> bool" where
  "aggregate_call_ok opts c \<longleftrightarrow>
     (\<forall>C ags. c = aggregate_call C ags \<longrightarrow>
        (\<exists>M. C = strength_of_connection opts M) \<and> ags = replicate (num_rows C) 0)"

subsection \<open>A concrete strategy chain\<close>

text \<open>
  Strategies over integer values on which the construction can be evaluated: the
  strength matrix is the operator itself, unknowns \<open>2i\<close> and \<open>2i + 1\<close> form aggregate
  \<open>i\<close>, the prolongator is the tentative one, the restriction its transpose, and the
  coarse operator an identity of the right size.
\<close>

definition identity_matrix :: "nat \<Rightarrow> int matrix" where
  "identity_matrix n = \<lparr>num_rows = n, num_cols = n, num_entries = n,
                         entries = map (\<lambda>i. (i, i, 1)) [0..<n]\<rparr>"

definition pair_fit :: "int list \<Rightarrow> int list \<Rightarrow> int matrix \<times> int list" where
  "pair_fit ags B =
     (\<lparr>num_rows = length ags, num_cols = (length ags + 1) div 2, num_entries = length ags,
       entries = map (\<lambda>i. (i, i div 2, 1)) [0..<length ags]\<rparr>,
      replicate ((length ags + 1) div 2) 1)"

definition transpose_matrix :: "int matrix \<Rightarrow> int matrix" where
  "transpose_matrix P = \<lparr>num_rows = num_cols P, num_cols = num_rows P, num_entries = num_entries P,
       entries = map (\<lambda>(i, j, v). (j, i, v)) (entries P)\<rparr>"

definition pair_options :: "nat \<Rightarrow> nat \<Rightarrow> int sa_options" where
  "pair_options m l =
     \<lparr>min_level_size = m, max_levels = l,
      strength_of_connection = (\<lambda>M. M),
      aggregate = (\<lambda>C ags. map (\<lambda>i. int (i div 2)) [0..<length ags]),
      fit_candidates = pair_fit,
      smooth_prolongator = (\<lambda>M T rho. (T, rho + 1)),
      form_restriction = transpose_matrix,
      galerkin_product = (\<lambda>R M P. identity_matrix (num_rows R))\<rparr>"

text \<open>
  A memory in which a full vector doubles its capacity and in which the first dangling
  read of \<^verbatim>\<open>num_rows\<close> (three level records present) finds 4 and every later one 3.
\<close>

definition example_memory :: memory where
  "example_memory =
     \<lparr>grow = (\<lambda>c. 2 * c), stale_num_rows = (\<lambda>n. if n = 3 then 4 else 3)\<rparr>"

section \<open>Lemmas\<close>

subsection \<open>Lists and the strategy chain\<close>

lemmas chain_defs = chain_aggregates_def chain_T_def chain_B_coarse_def chain_P_def
  chain_rho_def chain_R_def chain_RAP_def

lemma length_update_back [simp]: "length (update_back f xs) = length xs"
  by (cases xs rule: rev_cases) (simp_all add: update_back_def)

lemma update_back_Nil [simp]: "update_back f [] = []"
  by (simp add: update_back_def)

lemma update_back_snoc [simp]: "update_back f (xs @ [x]) = xs @ [f x]"
  by (simp add: update_back_def)

lemma update_back_eq_Nil [simp]: "(update_back f xs = []) = (xs = [])"
  by (simp add: update_back_def)

lemma nth_update_back:
  "j < length xs \<Longrightarrow> update_back f xs ! j = (if Suc j = length xs then f (xs ! j) else xs ! j)"
  by (cases xs rule: rev_cases) (auto simp: nth_append)

lemma last_update_back [simp]: "xs \<noteq> [] \<Longrightarrow> last (update_back f xs) = f (last xs)"
  by (cases xs rule: rev_cases) simp_all

lemma deref_simps [simp]:
  "deref (external M) s = M"
  "deref sa_levels_back s = sa_A (last (sa_levels s))"
  by (simp_all add: deref_def)

lemma setup_level_matrix_fst [simp]: "fst (setup_level_matrix t dst src) = src"
  by (simp add: setup_level_matrix_def matrix_swap_def matrix_assign_def)

lemma setup_level_matrix_snd: "snd (setup_level_matrix t dst src) = (if t then dst else src)"
  by (simp add: setup_level_matrix_def matrix_swap_def matrix_assign_def)

subsection \<open>The members after extend\_hierarchy and after one transfer step\<close>

lemma sa_levels_extend:
  "sa_levels (extend_hierarchy mem t opts r s) =
     update_back (\<lambda>l. l\<lparr>rho_DinvA := chain_rho opts (deref r s) (sa_B (last (sa_levels s))) (rho_DinvA (last (sa_levels s))),
                         aggregates := chain_aggregates opts (deref r s)\<rparr>) (sa_levels s)
     @ [new_sa_level\<lparr>sa_A := chain_RAP opts (deref r s) (sa_B (last (sa_levels s))) (rho_DinvA (last (sa_levels s))),
                      sa_B := chain_B_coarse opts (deref r s) (sa_B (last (sa_levels s)))\<rparr>]"
  by (simp add: extend_hierarchy_def Let_def case_prod_beta chain_defs)

lemma levels_extend:
  "levels (extend_hierarchy mem t opts r s) =
     update_back (\<lambda>l. l\<lparr>level_R := chain_R opts (deref r s) (sa_B (last (sa_levels s))) (rho_DinvA (last (sa_levels s))),
                         level_P := chain_P opts (deref r s) (sa_B (last (sa_levels s))) (rho_DinvA (last (sa_levels s))),
                         residual := array1d_resize (residual_rows mem r s) (residual l)\<rparr>) (levels s)
     @ [new_level\<lparr>level_x := array1d_resize (num_rows (chain_RAP opts (deref r s) (sa_B (last (sa_levels s))) (rho_DinvA (last (sa_levels s))))) [],
                   level_b := array1d_resize (num_rows (chain_RAP opts (deref r s) (sa_B (last (sa_levels s))) (rho_DinvA (last (sa_levels s))))) []\<rparr>]"
  by (simp add: extend_hierarchy_def Let_def case_prod_beta chain_defs new_level_def
      residual_rows_def)

lemma invoked_extend:
  "invoked (extend_hierarchy mem t opts r s) = invoked s @
     [strength_of_connection_call (deref r s),
      aggregate_call (strength_of_connection opts (deref r s))
        (replicate (num_rows (strength_of_connection opts (deref r s))) 0),
      fit_candidates_call (chain_aggregates opts (deref r s)) (sa_B (last (sa_levels s))),
      smooth_prolongator_call (deref r s) (chain_T opts (deref r s) (sa_B (last (sa_levels s))))
        (rho_DinvA (last (sa_levels s))),
      form_restriction_call (chain_P opts (deref r s) (sa_B (last (sa_levels s))) (rho_DinvA (last (sa_levels s)))),
      galerkin_product_call (chain_R opts (deref r s) (sa_B (last (sa_levels s))) (rho_DinvA (last (sa_levels s)))) (deref r s)
        (chain_P opts (deref r s) (sa_B (last (sa_levels s))) (rho_DinvA (last (sa_levels s))))]"
  by (simp add: extend_hierarchy_def Let_def case_prod_beta chain_defs)

lemma frame_extend [simp]:
  "solver (extend_hierarchy mem t opts r s) = solver s"
  "ml_num_rows (extend_hierarchy mem t opts r s) = ml_num_rows s"
  "ml_num_cols (extend_hierarchy mem t opts r s) = ml_num_cols s"
  "ml_num_entries (extend_hierarchy mem t opts r s) = ml_num_entries s"
  by (simp_all add: extend_hierarchy_def Let_def case_prod_beta)

lemma sa_levels_setup_level:
  "sa_levels (setup_level t lvl s) =
     (sa_levels s)[lvl := (sa_levels s ! lvl)\<lparr>sa_A := (if t then level_A (levels s ! lvl) else sa_A (sa_levels s ! lvl))\<rparr>]"
  by (simp add: setup_level_def Let_def case_prod_beta setup_level_matrix_snd)

lemma levels_setup_level:
  "levels (setup_level t lvl s) =
     update_back (\<lambda>l. l\<lparr>smoother := SmootherType (level_A ((levels s)[lvl := (levels s ! lvl)\<lparr>level_A := sa_A (sa_levels s ! lvl)\<rparr>] ! lvl))\<rparr>)
       ((levels s)[lvl := (levels s ! lvl)\<lparr>level_A := sa_A (sa_levels s ! lvl)\<rparr>])"
  by (simp add: setup_level_def Let_def case_prod_beta)

lemma frame_setup_level [simp]:
  "solver (setup_level t lvl s) = solver s"
  "invoked (setup_level t lvl s) = invoked s"
  "ml_num_rows (setup_level t lvl s) = ml_num_rows s"
  "ml_num_cols (setup_level t lvl s) = ml_num_cols s"
  "ml_num_entries (setup_level t lvl s) = ml_num_entries s"
  by (simp_all add: setup_level_def Let_def case_prod_beta)

subsection \<open>The two loops\<close>

text \<open>
  Each loop unfolds once when its condition holds and returns its argument when it does
  not; \<open>coarsen_loop_rule\<close> and \<open>setup_levels_rule\<close> are the invariant rules.
\<close>

lemma coarsen_loop_continue:
  "min_level_size opts < num_rows (sa_A (last (sa_levels s))) \<Longrightarrow>
   length (sa_levels s) < max_levels opts \<Longrightarrow>
   coarsen_loop mem t opts s = coarsen_loop mem t opts (extend_hierarchy mem t opts sa_levels_back s)"
  by (subst coarsen_loop.simps) simp

lemma coarsen_loop_stop:
  "\<not> (min_level_size opts < num_rows (sa_A (last (sa_levels s))) \<and>
      length (sa_levels s) < max_levels opts) \<Longrightarrow>
   coarsen_loop mem t opts s = s"
  by (subst coarsen_loop.simps) auto

lemma setup_levels_continue:
  "lvl < length (sa_levels s) \<Longrightarrow>
   setup_levels t lvl s = setup_levels t (Suc lvl) (setup_level t lvl s)"
  by (subst setup_levels.simps) simp

lemma setup_levels_stop: "\<not> lvl < length (sa_levels s) \<Longrightarrow> setup_levels t lvl s = s"
  by (subst setup_levels.simps) simp

lemma coarsen_loop_rule:
  assumes "Q s"
    and "\<And>u. Q u \<Longrightarrow> min_level_size opts < num_rows (sa_A (last (sa_levels u))) \<Longrightarrow>
           length (sa_levels u) < max_levels opts \<Longrightarrow>
           Q (extend_hierarchy mem t opts sa_levels_back u)"
  shows "Q (coarsen_loop mem t opts s) \<and>
         \<not> (min_level_size opts < num_rows (sa_A (last (sa_levels (coarsen_loop mem t opts s)))) \<and>
            length (sa_levels (coarsen_loop mem t opts s)) < max_levels opts)"
  using assms
proof (induction mem t opts s rule: coarsen_loop.induct)
  case (1 mem t opts s)
  show ?case
  proof (cases "min_level_size opts < num_rows (sa_A (last (sa_levels s))) \<and>
                length (sa_levels s) < max_levels opts")
    case True
    then have c: "min_level_size opts < num_rows (sa_A (last (sa_levels s)))"
      "length (sa_levels s) < max_levels opts" by simp_all
    have "Q (extend_hierarchy mem t opts sa_levels_back s)"
      by (rule "1.prems"(2)[OF "1.prems"(1) c])
    then have "Q (coarsen_loop mem t opts (extend_hierarchy mem t opts sa_levels_back s)) \<and>
         \<not> (min_level_size opts < num_rows (sa_A (last (sa_levels
              (coarsen_loop mem t opts (extend_hierarchy mem t opts sa_levels_back s))))) \<and>
            length (sa_levels (coarsen_loop mem t opts
              (extend_hierarchy mem t opts sa_levels_back s))) < max_levels opts)"
      using "1.IH" True "1.prems"(2) by blast
    then show ?thesis
      unfolding coarsen_loop_continue[OF c] .
  next
    case False
    show ?thesis
      unfolding coarsen_loop_stop[OF False] using "1.prems"(1) False by blast
  qed
qed

lemma setup_levels_rule:
  assumes "Q lvl s"
    and "\<And>i u. Q i u \<Longrightarrow> i < length (sa_levels u) \<Longrightarrow> Q (Suc i) (setup_level t i u)"
  shows "\<exists>n. Q n (setup_levels t lvl s) \<and> lvl \<le> n \<and> \<not> n < length (sa_levels (setup_levels t lvl s))"
  using assms
proof (induction t lvl s rule: setup_levels.induct)
  case (1 t lvl s)
  show ?case
  proof (cases "lvl < length (sa_levels s)")
    case True
    have "Q (Suc lvl) (setup_level t lvl s)"
      by (rule "1.prems"(2)[OF "1.prems"(1) True])
    from "1.IH"[OF True this "1.prems"(2)] obtain n where n:
      "Q n (setup_levels t (Suc lvl) (setup_level t lvl s))" "Suc lvl \<le> n"
      "\<not> n < length (sa_levels (setup_levels t (Suc lvl) (setup_level t lvl s)))"
      by blast
    have "lvl \<le> n" using n(2) by simp
    with n show ?thesis
      unfolding setup_levels_continue[OF True] by blast
  next
    case False
    show ?thesis
      unfolding setup_levels_stop[OF False] using "1.prems"(1) False by blast
  qed
qed

subsection \<open>sa\_initialize as a composition\<close>

lemma sa_initialize_phases:
  "sa_initialize mem t opts A0 B0 s =
     sa_finish A0 (setup_levels t 1
       ((sa_coarsened mem t opts A0 B0 s)
          \<lparr>solver := SolverType (sa_A (last (sa_levels (sa_coarsened mem t opts A0 B0 s))))\<rparr>))"
  unfolding sa_initialize_def sa_coarsened_def sa_first_def sa_start_def sa_finish_def Let_def
  by (rule refl)

lemma sa_start_eq:
  "sa_start mem A0 B0 s =
     \<lparr>ml_num_rows = num_rows A0, ml_num_cols = num_cols A0, ml_num_entries = num_entries A0,
      levels = (if sa_levels s = [] then levels s else []) @ [new_level],
      solver = solver s,
      sa_levels = [new_sa_level\<lparr>sa_B := B0\<rparr>],
      sa_capacity = push_back_capacity mem 0 (sa_capacity s),
      invoked = invoked s\<rparr>"
  by (simp add: sa_start_def Let_def)

subsection \<open>The coarsening invariant\<close>

lemma coarsening_inv_start:
  "sa_levels s \<noteq> [] \<or> levels s = [] \<Longrightarrow> coarsening_inv (sa_start mem A0 B0 s)"
  by (auto simp: coarsening_inv_def sa_start_eq new_level_def new_sa_level_def)

lemma coarsening_inv_extend:
  assumes "coarsening_inv s"
  shows "coarsening_inv (extend_hierarchy mem t opts r s)"
proof -
  from assms have len: "length (levels s) = length (sa_levels s)" and ne: "sa_levels s \<noteq> []"
    and a0: "sa_A (sa_levels s ! 0) = empty_matrix"
    and lA: "\<And>k. k < length (levels s) \<Longrightarrow> level_A (levels s ! k) = empty_matrix"
    and sm: "smoother (levels s ! 0) = default_smoother"
    by (simp_all add: coarsening_inv_def)
  from len ne have pos: "0 < length (levels s)" "0 < length (sa_levels s)" by simp_all
  have 1: "length (levels (extend_hierarchy mem t opts r s)) = length (sa_levels (extend_hierarchy mem t opts r s))"
    by (simp add: levels_extend sa_levels_extend len)
  have 2: "sa_levels (extend_hierarchy mem t opts r s) \<noteq> []"
    by (simp add: sa_levels_extend)
  have 3: "sa_A (sa_levels (extend_hierarchy mem t opts r s) ! 0) = empty_matrix"
    using pos a0 by (simp add: sa_levels_extend nth_append nth_update_back)
  have 4: "level_A (levels (extend_hierarchy mem t opts r s) ! k) = empty_matrix"
    if "k < length (levels (extend_hierarchy mem t opts r s))" for k
    using that lA[of k] by (auto simp: levels_extend nth_append nth_update_back new_level_def)
  have 5: "smoother (levels (extend_hierarchy mem t opts r s) ! 0) = default_smoother"
    using pos sm by (simp add: levels_extend nth_append nth_update_back)
  from 1 2 3 4 5 show ?thesis
    unfolding coarsening_inv_def by blast
qed

lemma length_sa_levels_extend [simp]:
  "length (sa_levels (extend_hierarchy mem t opts r s)) = Suc (length (sa_levels s))"
  by (simp add: sa_levels_extend)

lemma length_levels_extend [simp]:
  "length (levels (extend_hierarchy mem t opts r s)) = Suc (length (levels s))"
  by (simp add: levels_extend)

lemma sa_first_fields [simp]:
  "sa_levels (sa_first mem t opts A0 s) =
     (if min_level_size opts < num_rows A0 then sa_levels (extend_hierarchy mem t opts (external A0) s) else sa_levels s)"
  "invoked (sa_first mem t opts A0 s) =
     (if min_level_size opts < num_rows A0 then invoked (extend_hierarchy mem t opts (external A0) s) else invoked s)"
  "solver (sa_first mem t opts A0 s) = solver s"
  "ml_num_rows (sa_first mem t opts A0 s) = ml_num_rows s"
  "ml_num_cols (sa_first mem t opts A0 s) = ml_num_cols s"
  "ml_num_entries (sa_first mem t opts A0 s) = ml_num_entries s"
  by (simp_all add: sa_first_def Let_def)

lemma levels_sa_first:
  "levels (sa_first mem t opts A0 s) =
     (if min_level_size opts < num_rows A0
      then update_back (\<lambda>l. l\<lparr>smoother := SmootherType A0\<rparr>) (levels (extend_hierarchy mem t opts (external A0) s))
      else levels s)"
  by (simp add: sa_first_def Let_def)

lemma coarsening_inv_first:
  assumes "coarsening_inv s"
  shows "coarsening_inv (sa_first mem t opts A0 s)"
proof (cases "min_level_size opts < num_rows A0")
  case False
  then show ?thesis using assms by (simp add: sa_first_def)
next
  case True
  let ?u = "extend_hierarchy mem t opts (external A0) s"
  have u: "coarsening_inv ?u" by (rule coarsening_inv_extend[OF assms])
  have two: "2 \<le> length (levels ?u)"
    using assms by (simp add: coarsening_inv_def Suc_le_eq)
  from u have ulen: "length (levels ?u) = length (sa_levels ?u)" and une: "sa_levels ?u \<noteq> []"
    and ua0: "sa_A (sa_levels ?u ! 0) = empty_matrix"
    and ulA: "\<And>k. k < length (levels ?u) \<Longrightarrow> level_A (levels ?u ! k) = empty_matrix"
    and usm: "smoother (levels ?u ! 0) = default_smoother"
    by (simp_all add: coarsening_inv_def)
  have 4: "level_A (levels (sa_first mem t opts A0 s) ! k) = empty_matrix"
    if "k < length (levels (sa_first mem t opts A0 s))" for k
    using that True ulA[of k] by (auto simp: levels_sa_first nth_update_back)
  have 5: "smoother (levels (sa_first mem t opts A0 s) ! 0) = default_smoother"
    using True two usm by (auto simp: levels_sa_first nth_update_back)
  show ?thesis
    unfolding coarsening_inv_def
    using True ulen une ua0 4 5 by (simp add: levels_sa_first)
qed

lemma coarsening_inv_coarsened:
  assumes "sa_levels s \<noteq> [] \<or> levels s = []"
  shows "coarsening_inv (sa_coarsened mem t opts A0 B0 s)"
  unfolding sa_coarsened_def
  using coarsen_loop_rule[where Q = coarsening_inv and t = t and opts = opts
      and s = "sa_first mem t opts A0 (sa_start mem A0 B0 s)"]
    coarsening_inv_first[OF coarsening_inv_start[OF assms]] coarsening_inv_extend
  by blast

subsection \<open>One transfer step, member by member\<close>

lemma nth_update_back_proj:
  assumes "\<And>x. h (f x) = h x" and "j < length xs"
  shows "h (update_back f xs ! j) = h (xs ! j)"
  using assms by (simp add: nth_update_back)

lemma nth_update_back_front: "Suc j < length xs \<Longrightarrow> update_back f xs ! j = xs ! j"
  by (simp add: nth_update_back)

lemma setup_level_lengths [simp]:
  "length (levels (setup_level t i u)) = length (levels u)"
  "length (sa_levels (setup_level t i u)) = length (sa_levels u)"
  by (simp_all add: levels_setup_level sa_levels_setup_level)

lemma setup_level_level_A:
  assumes "k < length (levels u)"
  shows "level_A (levels (setup_level t i u) ! k) =
           (if k = i then sa_A (sa_levels u ! i) else level_A (levels u ! k))"
proof -
  let ?xs = "(levels u)[i := (levels u ! i)\<lparr>level_A := sa_A (sa_levels u ! i)\<rparr>]"
  have "level_A (levels (setup_level t i u) ! k) = level_A (?xs ! k)"
    unfolding levels_setup_level
    by (rule nth_update_back_proj) (simp_all add: assms)
  also have "\<dots> = (if k = i then sa_A (sa_levels u ! i) else level_A (levels u ! k))"
    using assms by (cases "k = i") simp_all
  finally show ?thesis .
qed

lemma setup_level_level_R:
  assumes "k < length (levels u)"
  shows "level_R (levels (setup_level t i u) ! k) = level_R (levels u ! k)"
proof -
  let ?xs = "(levels u)[i := (levels u ! i)\<lparr>level_A := sa_A (sa_levels u ! i)\<rparr>]"
  have "level_R (levels (setup_level t i u) ! k) = level_R (?xs ! k)"
    unfolding levels_setup_level
    by (rule nth_update_back_proj) (simp_all add: assms)
  also have "\<dots> = level_R (levels u ! k)"
    using assms by (cases "k = i") simp_all
  finally show ?thesis .
qed

lemma setup_level_level_P:
  assumes "k < length (levels u)"
  shows "level_P (levels (setup_level t i u) ! k) = level_P (levels u ! k)"
proof -
  let ?xs = "(levels u)[i := (levels u ! i)\<lparr>level_A := sa_A (sa_levels u ! i)\<rparr>]"
  have "level_P (levels (setup_level t i u) ! k) = level_P (?xs ! k)"
    unfolding levels_setup_level
    by (rule nth_update_back_proj) (simp_all add: assms)
  also have "\<dots> = level_P (levels u ! k)"
    using assms by (cases "k = i") simp_all
  finally show ?thesis .
qed

lemma setup_level_smoother:
  assumes "Suc k < length (levels u)"
  shows "smoother (levels (setup_level t i u) ! k) = smoother (levels u ! k)"
proof -
  let ?xs = "(levels u)[i := (levels u ! i)\<lparr>level_A := sa_A (sa_levels u ! i)\<rparr>]"
  have "levels (setup_level t i u) ! k = ?xs ! k"
    unfolding levels_setup_level
    by (rule nth_update_back_front) (simp add: assms)
  then show ?thesis
    using assms by (cases "k = i") simp_all
qed

lemma setup_level_sa_A:
  assumes "k < length (sa_levels u)"
  shows "sa_A (sa_levels (setup_level t i u) ! k) =
           (if k = i \<and> t then level_A (levels u ! i) else sa_A (sa_levels u ! k))"
  using assms by (cases "k = i") (simp_all add: sa_levels_setup_level)

lemma setup_level_aggregates:
  assumes "k < length (sa_levels u)"
  shows "aggregates (sa_levels (setup_level t i u) ! k) = aggregates (sa_levels u ! k)"
  using assms by (cases "k = i") (simp_all add: sa_levels_setup_level)

subsection \<open>The transfer invariant\<close>

lemma transfer_inv_init: "transfer_inv t s 1 s"
  unfolding transfer_inv_def by auto

lemma transfer_inv_step:
  assumes len: "length (levels s) = length (sa_levels s)"
    and inv: "transfer_inv t s i u" and i: "i < length (sa_levels u)"
  shows "transfer_inv t s (Suc i) (setup_level t i u)"
proof -
  let ?n = "length (levels s)"
  let ?v = "setup_level t i u"
  from inv have i1: "1 \<le> i" and lu: "length (levels u) = ?n" and su: "length (sa_levels u) = ?n"
    and so: "solver u = solver s" and iv: "invoked u = invoked s"
    and ml: "ml_num_rows u = ml_num_rows s" "ml_num_cols u = ml_num_cols s"
      "ml_num_entries u = ml_num_entries s"
    and sm: "smoother (levels u ! 0) = smoother (levels s ! 0)"
    by (simp_all add: transfer_inv_def len)
  from inv have fr:
        "level_R (levels u ! k) = level_R (levels s ! k)"
        "level_P (levels u ! k) = level_P (levels s ! k)"
        "aggregates (sa_levels u ! k) = aggregates (sa_levels s ! k)"
        "level_A (levels u ! k) =
          (if 1 \<le> k \<and> k < i then sa_A (sa_levels s ! k) else level_A (levels s ! k))"
        "sa_A (sa_levels u ! k) =
          (if 1 \<le> k \<and> k < i \<and> t then level_A (levels s ! k) else sa_A (sa_levels s ! k))"
    if "k < ?n" for k
    using that by (simp_all add: transfer_inv_def)
  from i su have iN: "i < ?n" by simp
  have a: "length (levels ?v) = ?n" "length (sa_levels ?v) = length (sa_levels s)"
    by (simp_all add: lu su len)
  have "Suc 0 < length (levels u)" using i1 iN lu by simp
  then have b: "smoother (levels ?v ! 0) = smoother (levels s ! 0)"
    by (simp add: setup_level_smoother sm)
  have fi: "level_A (levels u ! i) = level_A (levels s ! i)"
    "sa_A (sa_levels u ! i) = sa_A (sa_levels s ! i)"
    using fr(4,5)[OF iN] by simp_all
  have c1: "level_R (levels ?v ! k) = level_R (levels s ! k)" if "k < ?n" for k
    using that by (simp add: setup_level_level_R lu fr)
  have c2: "level_P (levels ?v ! k) = level_P (levels s ! k)" if "k < ?n" for k
    using that by (simp add: setup_level_level_P lu fr)
  have c3: "aggregates (sa_levels ?v ! k) = aggregates (sa_levels s ! k)" if "k < ?n" for k
    using that by (simp add: setup_level_aggregates su fr)
  have c4: "level_A (levels ?v ! k) =
          (if 1 \<le> k \<and> k < Suc i then sa_A (sa_levels s ! k) else level_A (levels s ! k))"
    if k: "k < ?n" for k
  proof (cases "k = i")
    case True
    then show ?thesis using k i1 by (simp add: setup_level_level_A lu fi)
  next
    case False
    then have "(k < Suc i) = (k < i)" by auto
    with False show ?thesis using k by (simp add: setup_level_level_A lu fr(4)[OF k])
  qed
  have c5: "sa_A (sa_levels ?v ! k) =
          (if 1 \<le> k \<and> k < Suc i \<and> t then level_A (levels s ! k) else sa_A (sa_levels s ! k))"
    if k: "k < ?n" for k
  proof (cases "k = i")
    case True
    then show ?thesis using k i1 by (simp add: setup_level_sa_A su fi)
  next
    case False
    then have "(k < Suc i) = (k < i)" by auto
    with False show ?thesis using k by (simp add: setup_level_sa_A su fr(5)[OF k])
  qed
  have i2: "1 \<le> Suc i" by simp
  have fr': "solver ?v = solver s" "invoked ?v = invoked s" "ml_num_rows ?v = ml_num_rows s"
    "ml_num_cols ?v = ml_num_cols s" "ml_num_entries ?v = ml_num_entries s"
    by (simp_all add: so iv ml)
  show ?thesis
    unfolding transfer_inv_def using a b c1 c2 c3 c4 c5 i2 fr' by blast
qed

lemma setup_levels_result:
  assumes len: "length (levels s) = length (sa_levels s)"
  shows "\<exists>n. length (levels s) \<le> n \<and> transfer_inv t s n (setup_levels t 1 s)"
proof -
  obtain n where n: "transfer_inv t s n (setup_levels t 1 s)" "1 \<le> n"
    "\<not> n < length (sa_levels (setup_levels t 1 s))"
    using setup_levels_rule[where Q = "transfer_inv t s" and lvl = 1 and s = s and t = t,
        OF transfer_inv_init transfer_inv_step[OF len]]
    by blast
  from n(1) have "length (sa_levels (setup_levels t 1 s)) = length (sa_levels s)"
    unfolding transfer_inv_def by (elim conjE)
  with n(3) have ge: "length (levels s) \<le> n"
    by (simp add: len)
  with n(1) show ?thesis by blast
qed

subsection \<open>What the construction leaves\<close>

lemma sa_finish_fields [simp]:
  "sa_levels (sa_finish A0 s) = sa_levels s"
  "solver (sa_finish A0 s) = solver s"
  "invoked (sa_finish A0 s) = invoked s"
  "ml_num_rows (sa_finish A0 s) = ml_num_rows s"
  "ml_num_cols (sa_finish A0 s) = ml_num_cols s"
  "ml_num_entries (sa_finish A0 s) = ml_num_entries s"
  "length (levels (sa_finish A0 s)) = length (levels s)"
  by (simp_all add: sa_finish_def)

lemma sa_finish_nth:
  "1 \<le> k \<Longrightarrow> levels (sa_finish A0 s) ! k = levels s ! k"
  by (simp add: sa_finish_def)

lemma sa_finish_0:
  "levels s \<noteq> [] \<Longrightarrow>
   levels (sa_finish A0 s) ! 0 = (levels s ! 0)
     \<lparr>level_A := matrix_base_resize (num_rows A0) (num_cols A0) (num_entries A0)
                   (level_A (levels s ! 0))\<rparr>"
  by (simp add: sa_finish_def)

lemma transfer_invD:
  assumes "transfer_inv t s i u"
  shows "1 \<le> i" and "length (levels u) = length (levels s)"
    and "length (sa_levels u) = length (sa_levels s)"
    and "solver u = solver s" and "invoked u = invoked s"
    and "smoother (levels u ! 0) = smoother (levels s ! 0)"
    and "\<And>k. k < length (levels s) \<Longrightarrow> level_R (levels u ! k) = level_R (levels s ! k)"
    and "\<And>k. k < length (levels s) \<Longrightarrow> level_P (levels u ! k) = level_P (levels s ! k)"
    and "\<And>k. k < length (levels s) \<Longrightarrow>
           aggregates (sa_levels u ! k) = aggregates (sa_levels s ! k)"
    and "\<And>k. k < length (levels s) \<Longrightarrow> level_A (levels u ! k) =
          (if 1 \<le> k \<and> k < i then sa_A (sa_levels s ! k) else level_A (levels s ! k))"
    and "\<And>k. k < length (levels s) \<Longrightarrow> sa_A (sa_levels u ! k) =
          (if 1 \<le> k \<and> k < i \<and> t then level_A (levels s ! k) else sa_A (sa_levels s ! k))"
  using assms unfolding transfer_inv_def by blast+

lemma construction_summary:
  fixes mem t opts A B p
  defines "c \<equiv> sa_coarsened mem t opts A B p"
  defines "s \<equiv> sa_initialize mem t opts A B p"
  assumes p: "sa_levels p \<noteq> [] \<or> levels p = []"
  shows "length (levels s) = length (sa_levels c)"
    and "length (sa_levels s) = length (sa_levels c)"
    and "level_A (levels s ! 0) =
           \<lparr>num_rows = num_rows A, num_cols = num_cols A, num_entries = num_entries A,
            entries = []\<rparr>"
    and "\<And>k. 1 \<le> k \<Longrightarrow> k < length (sa_levels c) \<Longrightarrow>
           level_A (levels s ! k) = sa_A (sa_levels c ! k)"
    and "\<And>k. k < length (sa_levels c) \<Longrightarrow>
           sa_A (sa_levels s ! k) = (if 1 \<le> k \<and> t then empty_matrix else sa_A (sa_levels c ! k))"
    and "\<And>k. k < length (sa_levels c) \<Longrightarrow> level_R (levels s ! k) = level_R (levels c ! k)"
    and "\<And>k. k < length (sa_levels c) \<Longrightarrow> level_P (levels s ! k) = level_P (levels c ! k)"
    and "\<And>k. k < length (sa_levels c) \<Longrightarrow>
           aggregates (sa_levels s ! k) = aggregates (sa_levels c ! k)"
    and "solver s = SolverType (sa_A (last (sa_levels c)))"
    and "invoked s = invoked c"
    and "smoother (levels s ! 0) = default_smoother"
proof -
  define c' where "c' = c\<lparr>solver := SolverType (sa_A (last (sa_levels c)))\<rparr>"
  define r where "r = setup_levels t 1 c'"
  have c': "levels c' = levels c" "sa_levels c' = sa_levels c" "invoked c' = invoked c"
    "solver c' = SolverType (sa_A (last (sa_levels c)))"
    by (simp_all add: c'_def)
  have s: "s = sa_finish A r"
    unfolding s_def c_def r_def c'_def by (rule sa_initialize_phases)
  have ci: "coarsening_inv c"
    unfolding c_def by (rule coarsening_inv_coarsened[OF p])
  then have len: "length (levels c) = length (sa_levels c)" and ne: "sa_levels c \<noteq> []"
    and a0: "sa_A (sa_levels c ! 0) = empty_matrix"
    and lA: "\<And>k. k < length (levels c) \<Longrightarrow> level_A (levels c ! k) = empty_matrix"
    and sm: "smoother (levels c ! 0) = default_smoother"
    by (simp_all add: coarsening_inv_def)
  have len': "length (levels c') = length (sa_levels c')" by (simp add: len c')
  from setup_levels_result[OF len', of t] obtain n where
    n: "length (levels c) \<le> n" and ti: "transfer_inv t c' n r"
    unfolding r_def c'(1) by blast
  note D = transfer_invD[OF ti, unfolded c']
  have n1: "1 \<le> n" and lr: "length (levels r) = length (levels c)"
    and sr: "length (sa_levels r) = length (sa_levels c)"
    and so: "solver r = SolverType (sa_A (last (sa_levels c)))" and iv: "invoked r = invoked c"
    and smr: "smoother (levels r ! 0) = smoother (levels c ! 0)"
    by (rule D)+
  have fr:
        "level_R (levels r ! k) = level_R (levels c ! k)"
        "level_P (levels r ! k) = level_P (levels c ! k)"
        "aggregates (sa_levels r ! k) = aggregates (sa_levels c ! k)"
        "level_A (levels r ! k) =
          (if 1 \<le> k \<and> k < n then sa_A (sa_levels c ! k) else level_A (levels c ! k))"
        "sa_A (sa_levels r ! k) =
          (if 1 \<le> k \<and> k < n \<and> t then level_A (levels c ! k) else sa_A (sa_levels c ! k))"
    if "k < length (levels c)" for k
    using that by (rule D)+
  from ne len have pos: "0 < length (levels c)" by simp
  with lr have rne: "levels r \<noteq> []" by auto
  show "length (levels s) = length (sa_levels c)" by (simp add: s lr len)
  show "length (sa_levels s) = length (sa_levels c)" by (simp add: s sr)
  show "level_A (levels s ! 0) =
           \<lparr>num_rows = num_rows A, num_cols = num_cols A, num_entries = num_entries A,
            entries = []\<rparr>"
    using fr(4)[OF pos] lA[OF pos]
    by (simp add: s sa_finish_0[OF rne] matrix_base_resize_def empty_matrix_def)
  show "level_A (levels s ! k) = sa_A (sa_levels c ! k)"
    if "1 \<le> k" "k < length (sa_levels c)" for k
    using that fr(4)[of k] n by (simp add: s sa_finish_nth len)
  show "sa_A (sa_levels s ! k) = (if 1 \<le> k \<and> t then empty_matrix else sa_A (sa_levels c ! k))"
    if "k < length (sa_levels c)" for k
    using that fr(5)[of k] lA[of k] n by (simp add: s len)
  show "level_R (levels s ! k) = level_R (levels c ! k)" if "k < length (sa_levels c)" for k
  proof (cases "k = 0")
    case True
    then show ?thesis using fr(1)[OF pos] by (simp add: s sa_finish_0[OF rne])
  next
    case False
    then show ?thesis using that fr(1)[of k] by (simp add: s sa_finish_nth len)
  qed
  show "level_P (levels s ! k) = level_P (levels c ! k)" if "k < length (sa_levels c)" for k
  proof (cases "k = 0")
    case True
    then show ?thesis using fr(2)[OF pos] by (simp add: s sa_finish_0[OF rne])
  next
    case False
    then show ?thesis using that fr(2)[of k] by (simp add: s sa_finish_nth len)
  qed
  show "aggregates (sa_levels s ! k) = aggregates (sa_levels c ! k)"
    if "k < length (sa_levels c)" for k
    using that fr(3)[of k] by (simp add: s len)
  show "solver s = SolverType (sa_A (last (sa_levels c)))" by (simp add: s so)
  show "invoked s = invoked c" by (simp add: s iv)
  show "smoother (levels s ! 0) = default_smoother"
    using smr sm by (simp add: s sa_finish_0[OF rne])
qed

subsection \<open>The degenerate input\<close>

lemma fresh_ok: "sa_levels (fresh :: 'v sa_state) \<noteq> [] \<or> levels (fresh :: 'v sa_state) = []"
  by (simp add: fresh_def)

lemma sa_start_fields [simp]:
  "sa_levels (sa_start mem A0 B0 s) = [new_sa_level\<lparr>sa_B := B0\<rparr>]"
  "invoked (sa_start mem A0 B0 s) = invoked s"
  by (simp_all add: sa_start_eq)

lemma coarsened_degenerate:
  assumes "num_rows A0 \<le> min_level_size opts"
  shows "sa_coarsened mem t opts A0 B0 s0 = sa_start mem A0 B0 s0"
proof -
  from assms have 1: "sa_first mem t opts A0 (sa_start mem A0 B0 s0) = sa_start mem A0 B0 s0"
    by (simp add: sa_first_def)
  have "\<not> (min_level_size opts < num_rows (sa_A (last (sa_levels (sa_start mem A0 B0 s0)))) \<and>
           length (sa_levels (sa_start mem A0 B0 s0)) < max_levels opts)"
    by (simp add: new_sa_level_def empty_matrix_def)
  then show ?thesis
    unfolding sa_coarsened_def 1 by (rule coarsen_loop_stop)
qed

lemma level0_smoother_default:
  "smoother (levels (smoothed_aggregation mem same_type A0 B0 opts) ! 0) = default_smoother"
  unfolding smoothed_aggregation_def by (rule construction_summary(11)[OF fresh_ok])

subsection \<open>The number of levels\<close>

lemma length_sa_levels_first:
  "length (sa_levels (sa_first mem t opts A (sa_start mem A B p))) =
     (if min_level_size opts < num_rows A then 2 else 1)"
  by simp

lemma coarsened_exit:
  "\<not> (min_level_size opts < num_rows (sa_A (last (sa_levels (sa_coarsened mem t opts A B p)))) \<and>
      length (sa_levels (sa_coarsened mem t opts A B p)) < max_levels opts)"
  unfolding sa_coarsened_def
  using coarsen_loop_rule[where Q = "\<lambda>u. True" and t = t and opts = opts
      and s = "sa_first mem t opts A (sa_start mem A B p)"]
  by blast

lemma coarsened_length_bound:
  assumes "1 \<le> max_levels opts" and "min_level_size opts < num_rows A \<Longrightarrow> 2 \<le> max_levels opts"
  shows "length (sa_levels (sa_coarsened mem t opts A B p)) \<le> max_levels opts"
proof -
  have start: "length (sa_levels (sa_first mem t opts A (sa_start mem A B p))) \<le> max_levels opts"
    using assms by (simp only: length_sa_levels_first split: if_split) simp
  have step: "length (sa_levels (extend_hierarchy mem t opts sa_levels_back u)) \<le> max_levels opts"
    if "length (sa_levels u) < max_levels opts" for u
    using that by simp
  show ?thesis
    unfolding sa_coarsened_def
    using coarsen_loop_rule[where Q = "\<lambda>u. length (sa_levels u) \<le> max_levels opts"
        and t = t and opts = opts and s = "sa_first mem t opts A (sa_start mem A B p)", OF start step]
    by blast
qed

lemma coarsened_two_levels:
  assumes "min_level_size opts < num_rows A"
  shows "2 \<le> length (sa_levels (sa_coarsened mem t opts A B p))"
proof -
  have start: "2 \<le> length (sa_levels (sa_first mem t opts A (sa_start mem A B p)))"
    using assms by (simp only: length_sa_levels_first if_True)
  have step: "2 \<le> length (sa_levels (extend_hierarchy mem t opts sa_levels_back u))"
    if "2 \<le> length (sa_levels u)" for u
    using that by simp
  show ?thesis
    unfolding sa_coarsened_def
    using coarsen_loop_rule[where Q = "\<lambda>u. 2 \<le> length (sa_levels u)"
        and t = t and opts = opts and s = "sa_first mem t opts A (sa_start mem A B p)", OF start step]
    by blast
qed

lemma first_step_ignores_max_levels:
  "length (levels (smoothed_aggregation mem False (identity_matrix 4) [1, 1, 1, 1] (pair_options 1 1)))
     = 2 \<and>
   num_rows (level_A (last (levels
     (smoothed_aggregation mem False (identity_matrix 4) [1, 1, 1, 1] (pair_options 1 1))))) = 2"
  by code_simp

subsection \<open>The recorded strategy calls\<close>

lemma aggregate_call_ok_simps [simp]:
  "aggregate_call_ok opts (strength_of_connection_call M)"
  "aggregate_call_ok opts (aggregate_call (strength_of_connection opts M)
      (replicate (num_rows (strength_of_connection opts M)) 0))"
  "aggregate_call_ok opts (fit_candidates_call ags B)"
  "aggregate_call_ok opts (smooth_prolongator_call M T rho)"
  "aggregate_call_ok opts (form_restriction_call P)"
  "aggregate_call_ok opts (galerkin_product_call R M P)"
  unfolding aggregate_call_ok_def by blast+

lemma invoked_extend_ok:
  assumes "\<forall>c \<in> set (invoked u). aggregate_call_ok opts c"
  shows "\<forall>c \<in> set (invoked (extend_hierarchy mem t opts r u)). aggregate_call_ok opts c"
  using assms unfolding invoked_extend by simp

lemma invoked_coarsened:
  assumes "\<forall>c \<in> set (invoked p). aggregate_call_ok opts c"
  shows "\<forall>c \<in> set (invoked (sa_coarsened mem t opts A B p)). aggregate_call_ok opts c"
proof -
  let ?Q = "\<lambda>u. \<forall>c \<in> set (invoked u). aggregate_call_ok opts c"
  have start: "?Q (sa_first mem t opts A (sa_start mem A B p))"
  proof (cases "min_level_size opts < num_rows A")
    case True
    have "?Q (sa_start mem A B p)" using assms by simp
    then have "?Q (extend_hierarchy mem t opts (external A) (sa_start mem A B p))" by (rule invoked_extend_ok)
    with True show ?thesis by (simp only: sa_first_fields if_True)
  next
    case False
    with assms show ?thesis by (simp add: sa_first_def)
  qed
  have "?Q (coarsen_loop mem t opts (sa_first mem t opts A (sa_start mem A B p)))"
    by (rule coarsen_loop_rule[where Q = ?Q, THEN conjunct1, OF start invoked_extend_ok])
  then show ?thesis
    unfolding sa_coarsened_def .
qed

subsection \<open>The chain of shapes\<close>

lemma chain_shapes:
  assumes "shape_contracts opts"
  shows "num_rows (chain_R opts M B rho) = num_cols (chain_P opts M B rho)"
    and "num_cols (chain_P opts M B rho) = num_rows (chain_RAP opts M B rho)"
    and "num_cols (chain_R opts M B rho) = num_rows (chain_P opts M B rho)"
    and "num_rows (chain_P opts M B rho) = num_rows M"
    and "length (chain_aggregates opts M) = num_rows M"
  using assms by (simp_all add: shape_contracts_def chain_defs)

lemma dim_chain_extend:
  fixes r :: "'v::zero matrix_ref" and u :: "'v sa_state"
  defines "M \<equiv> deref r u"
  assumes con: "shape_contracts opts" and ci: "coarsening_inv u" and dc: "dim_chain A u"
    and M: "num_rows M =
      (if length (sa_levels u) = 1 then num_rows A else num_rows (sa_A (last (sa_levels u))))"
  shows "dim_chain A (extend_hierarchy mem t opts r u)"
proof -
  let ?n = "length (sa_levels u)"
  let ?B = "sa_B (last (sa_levels u))"
  let ?rho = "rho_DinvA (last (sa_levels u))"
  let ?f = "\<lambda>l. l\<lparr>rho_DinvA := chain_rho opts M ?B ?rho, aggregates := chain_aggregates opts M\<rparr>"
  let ?g = "\<lambda>l. l\<lparr>level_R := chain_R opts M ?B ?rho, level_P := chain_P opts M ?B ?rho,
                    residual := array1d_resize (residual_rows mem r u) (residual l)\<rparr>"
  let ?x = "new_sa_level\<lparr>sa_A := chain_RAP opts M ?B ?rho, sa_B := chain_B_coarse opts M ?B\<rparr>"
  let ?e = "extend_hierarchy mem t opts r u"
  from ci have len: "length (levels u) = ?n" and ne: "sa_levels u \<noteq> []"
    and a0: "sa_A (sa_levels u ! 0) = empty_matrix"
    by (simp_all add: coarsening_inv_def)
  from ne have pos: "0 < ?n" by simp
  have sl: "sa_levels ?e = update_back ?f (sa_levels u) @ [?x]"
    unfolding M_def by (rule sa_levels_extend)
  have sa_old: "sa_A (sa_levels ?e ! j) = sa_A (sa_levels u ! j)" if "j < ?n" for j
  proof -
    have "sa_levels ?e ! j = update_back ?f (sa_levels u) ! j"
      using that by (simp add: sl nth_append)
    moreover have "sa_A (update_back ?f (sa_levels u) ! j) = sa_A (sa_levels u ! j)"
      by (rule nth_update_back_proj) (simp_all add: that)
    ultimately show ?thesis by simp
  qed
  have sa_new: "sa_A (sa_levels ?e ! ?n) = chain_RAP opts M ?B ?rho"
    by (simp add: sl nth_append)
  have ag_old: "aggregates (sa_levels ?e ! j) = aggregates (sa_levels u ! j)" if "Suc j < ?n" for j
  proof -
    have "sa_levels ?e ! j = update_back ?f (sa_levels u) ! j"
      using that by (simp add: sl nth_append)
    also have "\<dots> = sa_levels u ! j"
      by (rule nth_update_back_front) (rule that)
    finally show ?thesis by simp
  qed
  have ag_last: "aggregates (sa_levels ?e ! j) = chain_aggregates opts M" if "Suc j = ?n" for j
  proof -
    have "j < ?n" using that by simp
    then have "sa_levels ?e ! j = update_back ?f (sa_levels u) ! j"
      by (simp add: sl nth_append)
    also have "\<dots> = ?f (sa_levels u ! j)"
      using that \<open>j < ?n\<close> by (simp add: nth_update_back)
    finally show ?thesis by simp
  qed
  have lv_old: "levels ?e ! j = levels u ! j" if "Suc j < ?n" for j
  proof -
    have "levels ?e ! j = update_back ?g (levels u) ! j"
      using that len by (simp add: levels_extend nth_append M_def)
    also have "\<dots> = levels u ! j"
      by (rule nth_update_back_front) (simp add: that len)
    finally show ?thesis .
  qed
  have lv_last: "levels ?e ! j = ?g (levels u ! j)" if "Suc j = ?n" for j
  proof -
    have j: "j < ?n" using that by simp
    then have "levels ?e ! j = update_back ?g (levels u) ! j"
      using len by (simp add: levels_extend nth_append M_def)
    also have "\<dots> = ?g (levels u ! j)"
      using that j len by (simp add: nth_update_back)
    finally show ?thesis .
  qed
  have goal: "num_rows (level_R (levels ?e ! k)) = num_cols (level_P (levels ?e ! k)) \<and>
        num_cols (level_P (levels ?e ! k)) = num_rows (sa_A (sa_levels ?e ! Suc k)) \<and>
        num_cols (level_R (levels ?e ! k)) = num_rows (level_P (levels ?e ! k)) \<and>
        num_rows (level_P (levels ?e ! k)) =
          (if k = 0 then num_rows A else num_rows (sa_A (sa_levels ?e ! k))) \<and>
        length (aggregates (sa_levels ?e ! k)) =
          (if k = 0 then num_rows A else num_rows (sa_A (sa_levels ?e ! k)))"
    if k: "Suc k < length (sa_levels ?e)" for k
  proof (cases "Suc k < ?n")
    case True
    then have k': "k < ?n" by simp
    from dc True have
      "num_rows (level_R (levels u ! k)) = num_cols (level_P (levels u ! k)) \<and>
        num_cols (level_P (levels u ! k)) = num_rows (sa_A (sa_levels u ! Suc k)) \<and>
        num_cols (level_R (levels u ! k)) = num_rows (level_P (levels u ! k)) \<and>
        num_rows (level_P (levels u ! k)) =
          (if k = 0 then num_rows A else num_rows (sa_A (sa_levels u ! k))) \<and>
        length (aggregates (sa_levels u ! k)) =
          (if k = 0 then num_rows A else num_rows (sa_A (sa_levels u ! k)))"
      unfolding dim_chain_def by blast
    then show ?thesis
      by (simp only: lv_old[OF True] sa_old[OF True] sa_old[OF k'] ag_old[OF True])
  next
    case False
    with k have kn: "Suc k = ?n" by simp
    then have k': "k < ?n" by simp
    have Mk: "num_rows M = (if k = 0 then num_rows A else num_rows (sa_A (sa_levels u ! k)))"
    proof (cases "k = 0")
      case True
      with kn M show ?thesis by simp
    next
      case False
      with kn have "?n \<noteq> 1" by simp
      moreover have "length (sa_levels u) - 1 = k" using kn by simp
      then have "last (sa_levels u) = sa_levels u ! k"
        using last_conv_nth[OF ne] by simp
      ultimately show ?thesis using M False by simp
    qed
    have sn: "sa_A (sa_levels ?e ! Suc k) = chain_RAP opts M ?B ?rho"
      using sa_new kn by simp
    show ?thesis
      unfolding lv_last[OF kn] sn sa_old[OF k'] ag_last[OF kn] Mk[symmetric]
      by (simp add: chain_shapes[OF con])
  qed
  show ?thesis
    unfolding dim_chain_def using goal by blast
qed

lemma dim_chain_first:
  assumes con: "shape_contracts opts" and p: "sa_levels p \<noteq> [] \<or> levels p = []"
  shows "dim_chain A (sa_first mem t opts A (sa_start mem A B p))"
proof (cases "min_level_size opts < num_rows A")
  case False
  then show ?thesis by (simp add: sa_first_def dim_chain_def)
next
  case True
  let ?u = "sa_start mem A B p"
  let ?e = "extend_hierarchy mem t opts (external A) ?u"
  have ci: "coarsening_inv ?u" by (rule coarsening_inv_start[OF p])
  have "dim_chain A ?u" by (simp add: dim_chain_def)
  then have e: "dim_chain A ?e"
    by (rule dim_chain_extend[OF con ci]) simp
  have lv: "levels (sa_first mem t opts A ?u) =
      update_back (\<lambda>l. l\<lparr>smoother := SmootherType A\<rparr>) (levels ?e)"
    using True by (simp add: levels_sa_first)
  have sl: "sa_levels (sa_first mem t opts A ?u) = sa_levels ?e"
    using True by simp
  have len: "length (levels ?e) = length (sa_levels ?e)"
    using coarsening_inv_extend[OF ci, where mem = mem and t = t and opts = opts
        and r = "external A"] by (simp add: coarsening_inv_def)
  have R: "level_R (levels (sa_first mem t opts A ?u) ! k) = level_R (levels ?e ! k)"
    if "k < length (levels ?e)" for k
    unfolding lv by (insert that, rule nth_update_back_proj, simp_all)
  have P: "level_P (levels (sa_first mem t opts A ?u) ! k) = level_P (levels ?e ! k)"
    if "k < length (levels ?e)" for k
    unfolding lv by (insert that, rule nth_update_back_proj, simp_all)
  show ?thesis
    unfolding dim_chain_def sl
  proof (intro allI impI)
    fix k assume k: "Suc k < length (sa_levels ?e)"
    then have k': "k < length (levels ?e)" using len by simp
    from e k have
      "num_rows (level_R (levels ?e ! k)) = num_cols (level_P (levels ?e ! k)) \<and>
        num_cols (level_P (levels ?e ! k)) = num_rows (sa_A (sa_levels ?e ! Suc k)) \<and>
        num_cols (level_R (levels ?e ! k)) = num_rows (level_P (levels ?e ! k)) \<and>
        num_rows (level_P (levels ?e ! k)) =
          (if k = 0 then num_rows A else num_rows (sa_A (sa_levels ?e ! k))) \<and>
        length (aggregates (sa_levels ?e ! k)) =
          (if k = 0 then num_rows A else num_rows (sa_A (sa_levels ?e ! k)))"
      unfolding dim_chain_def by blast
    then show
      "num_rows (level_R (levels (sa_first mem t opts A ?u) ! k)) =
         num_cols (level_P (levels (sa_first mem t opts A ?u) ! k)) \<and>
        num_cols (level_P (levels (sa_first mem t opts A ?u) ! k)) = num_rows (sa_A (sa_levels ?e ! Suc k)) \<and>
        num_cols (level_R (levels (sa_first mem t opts A ?u) ! k)) =
          num_rows (level_P (levels (sa_first mem t opts A ?u) ! k)) \<and>
        num_rows (level_P (levels (sa_first mem t opts A ?u) ! k)) =
          (if k = 0 then num_rows A else num_rows (sa_A (sa_levels ?e ! k))) \<and>
        length (aggregates (sa_levels ?e ! k)) =
          (if k = 0 then num_rows A else num_rows (sa_A (sa_levels ?e ! k)))"
      by (simp only: R[OF k'] P[OF k'])
  qed
qed

lemma dim_chain_coarsened:
  assumes con: "shape_contracts opts" and p: "sa_levels p \<noteq> [] \<or> levels p = []"
  shows "dim_chain A (sa_coarsened mem t opts A B p)"
proof -
  let ?Q = "\<lambda>u. coarsening_inv u \<and> dim_chain A u"
  have start: "?Q (sa_first mem t opts A (sa_start mem A B p))"
    using coarsening_inv_first[OF coarsening_inv_start[OF p]] dim_chain_first[OF con p]
    by blast
  have step: "?Q (extend_hierarchy mem t opts sa_levels_back u)"
    if q: "?Q u" and c: "min_level_size opts < num_rows (sa_A (last (sa_levels u)))" for u
  proof -
    from q have ci: "coarsening_inv u" and dc: "dim_chain A u" by simp_all
    from ci have ne: "sa_levels u \<noteq> []" and a0: "sa_A (sa_levels u ! 0) = empty_matrix"
      by (simp_all add: coarsening_inv_def)
    have "length (sa_levels u) \<noteq> 1"
    proof
      assume "length (sa_levels u) = 1"
      then have "last (sa_levels u) = sa_levels u ! 0"
        using last_conv_nth[OF ne] by simp
      with a0 c show False by (simp add: empty_matrix_def)
    qed
    then have "num_rows (deref sa_levels_back u) =
      (if length (sa_levels u) = 1 then num_rows A else num_rows (sa_A (last (sa_levels u))))"
      by simp
    from dim_chain_extend[OF con ci dc this] coarsening_inv_extend[OF ci]
    show ?thesis by blast
  qed
  have "?Q (coarsen_loop mem t opts (sa_first mem t opts A (sa_start mem A B p)))"
    by (rule coarsen_loop_rule[where Q = ?Q, THEN conjunct1, OF start step])
  then show ?thesis
    unfolding sa_coarsened_def by (rule conjunct2)
qed

lemma pair_options_contracts:
  "num_rows (strength_of_connection (pair_options m l) M) = num_rows M"
  "length (aggregate (pair_options m l) C ags) = length ags"
  "num_rows (fst (fit_candidates (pair_options m l) ags B)) = length ags"
  "num_rows (fst (smooth_prolongator (pair_options m l) M T rho)) = num_rows T"
  "num_rows (form_restriction (pair_options m l) P) = num_cols P \<and>
   num_cols (form_restriction (pair_options m l) P) = num_rows P"
  "num_rows (galerkin_product (pair_options m l) R M P) = num_rows R"
  by (simp_all add: pair_options_def pair_fit_def transpose_matrix_def identity_matrix_def)

subsection \<open>The level records after a build\<close>

lemma solver_setup_levels [simp]: "solver (setup_levels t i s) = solver s"
proof (induction t i s rule: setup_levels.induct)
  case (1 t lvl s)
  show ?case
  proof (cases "lvl < length (sa_levels s)")
    case True
    with "1.IH" have "solver (setup_levels t (Suc lvl) (setup_level t lvl s)) = solver s"
      by simp
    then show ?thesis unfolding setup_levels_continue[OF True] .
  next
    case False
    show ?thesis unfolding setup_levels_stop[OF False] ..
  qed
qed

lemma length_sa_levels_setup_levels [simp]:
  "length (sa_levels (setup_levels t i s)) = length (sa_levels s)"
proof (induction t i s rule: setup_levels.induct)
  case (1 t lvl s)
  show ?case
  proof (cases "lvl < length (sa_levels s)")
    case True
    with "1.IH" have
      "length (sa_levels (setup_levels t (Suc lvl) (setup_level t lvl s))) = length (sa_levels s)"
      by simp
    then show ?thesis unfolding setup_levels_continue[OF True] .
  next
    case False
    show ?thesis unfolding setup_levels_stop[OF False] ..
  qed
qed

lemma sa_levels_coarsened_ne: "sa_levels (sa_coarsened mem t opts A B p) \<noteq> []"
proof -
  have start: "sa_levels (sa_first mem t opts A (sa_start mem A B p)) \<noteq> []"
    by (simp add: sa_levels_extend)
  have step: "sa_levels (extend_hierarchy mem t opts r u) \<noteq> []" for r u
    by (simp add: sa_levels_extend)
  have "sa_levels (coarsen_loop mem t opts (sa_first mem t opts A (sa_start mem A B p))) \<noteq> []"
    by (rule coarsen_loop_rule[where Q = "\<lambda>u. sa_levels u \<noteq> []", THEN conjunct1, OF start step])
  then show ?thesis unfolding sa_coarsened_def .
qed

lemma sa_levels_initialize_ne: "sa_levels (sa_initialize mem t opts A B p) \<noteq> []"
proof -
  define c where "c = sa_coarsened mem t opts A B p"
  define c' where "c' = c\<lparr>solver := SolverType (sa_A (last (sa_levels c)))\<rparr>"
  have "sa_initialize mem t opts A B p = sa_finish A (setup_levels t 1 c')"
    unfolding c'_def c_def by (rule sa_initialize_phases)
  then have "sa_levels (sa_initialize mem t opts A B p) = sa_levels (sa_finish A (setup_levels t 1 c'))"
    by (rule arg_cong)
  then have "length (sa_levels (sa_initialize mem t opts A B p)) = length (sa_levels c')"
    by simp
  also have "\<dots> = length (sa_levels c)" by (simp add: c'_def)
  finally show ?thesis
    using sa_levels_coarsened_ne[of mem t opts A B p] unfolding c_def by auto
qed

subsection \<open>The two overloads give the same operators\<close>

lemma extend_hierarchy_same_type:
  "extend_hierarchy mem t opts r s = extend_hierarchy mem t' opts r s"
  by (simp add: extend_hierarchy_def Let_def case_prod_beta)

lemma coarsen_loop_same_type: "coarsen_loop mem t opts s = coarsen_loop mem t' opts s"
proof (induction mem t opts s rule: coarsen_loop.induct)
  case (1 mem t opts s)
  show ?case
  proof (cases "min_level_size opts < num_rows (sa_A (last (sa_levels s))) \<and>
                length (sa_levels s) < max_levels opts")
    case True
    then have c: "min_level_size opts < num_rows (sa_A (last (sa_levels s)))"
      "length (sa_levels s) < max_levels opts" by simp_all
    from "1.IH" True have
      "coarsen_loop mem t opts (extend_hierarchy mem t opts sa_levels_back s) =
       coarsen_loop mem t' opts (extend_hierarchy mem t opts sa_levels_back s)"
      by blast
    also have "\<dots> = coarsen_loop mem t' opts (extend_hierarchy mem t' opts sa_levels_back s)"
      by (simp only: extend_hierarchy_same_type[of _ t _ _ _ t'])
    finally show ?thesis
      by (simp only: coarsen_loop_continue[OF c, where t = t] coarsen_loop_continue[OF c, where t = t'])
  next
    case False
    show ?thesis
      by (simp only: coarsen_loop_stop[OF False])
  qed
qed

lemma sa_coarsened_same_type: "sa_coarsened mem t opts A B p = sa_coarsened mem t' opts A B p"
proof -
  have "sa_first mem t opts A (sa_start mem A B p) = sa_first mem t' opts A (sa_start mem A B p)"
    by (simp only: sa_first_def extend_hierarchy_same_type[of _ t _ _ _ t'])
  then show ?thesis
    unfolding sa_coarsened_def by (simp only: coarsen_loop_same_type[of _ t _ _ t'])
qed

subsection \<open>Level 0 and the transfer loop\<close>

lemma setup_level_keeps_level0:
  assumes "1 \<le> i"
  shows "level_A (levels (setup_level t i u) ! 0) = level_A (levels u ! 0)"
proof (cases "levels u = []")
  case True
  then show ?thesis by (simp add: levels_setup_level)
next
  case False
  then have "0 < length (levels u)" by simp
  from setup_level_level_A[OF this, of t i] assms show ?thesis by simp
qed

lemma setup_levels_keeps_level0:
  "level_A (levels (setup_levels t 1 s) ! 0) = level_A (levels s ! 0)"
proof -
  let ?Q = "\<lambda>(i::nat) u. 1 \<le> i \<and> level_A (levels u ! 0) = level_A (levels s ! 0)"
  have start: "?Q 1 s" by simp
  have step: "?Q (Suc i) (setup_level t i u)" if "?Q i u" for i u
    using that setup_level_keeps_level0[of i t u] by simp
  from setup_levels_rule[where Q = ?Q and t = t, OF start step]
  show ?thesis by blast
qed

section \<open>The claims\<close>

text \<open>
  C1.  The claim: every level but the coarsest gets a smoother built from its own
  operator, level 0 one bound to the input operator when \<open>rows(A0) > min_level_size\<close>.
  The code assigns to \<^verbatim>\<open>Parent::levels.back().smoother\<close> in both places, and
  \<^verbatim>\<open>extend_hierarchy\<close> has already appended the next level.  On the 4-row identity with
  \<open>min_level_size = 1\<close> (levels of 4, 2 and 1 unknowns) level 0 is left with the default
  smoother, level 1 holds the smoother of the input operator, and the coarsest level the
  one of its own operator.  Lemma \<open>level0_smoother_default\<close> shows that level 0 never
  gets a smoother, whatever the input.
\<close>

theorem C1_smoothers_installed:
  "map smoother (levels (smoothed_aggregation mem False (identity_matrix 4) [1, 1, 1, 1]
      (pair_options 1 10))) =
   [default_smoother, SmootherType (identity_matrix 4), SmootherType (identity_matrix 1)]"
  by code_simp

text \<open>
  C2, as stated, fails: with \<open>max_levels = 0\<close> the hierarchy of a 1-row operator
  (\<open>min_level_size = 1\<close>) still has its level 0, so one level is built, more than
  \<open>max_levels\<close>, and the level count is not \<open>max_levels\<close>.
\<close>

theorem C2_counterexample:
  "\<not> (length (levels (smoothed_aggregation example_memory False (identity_matrix 1) [1] (pair_options 1 0)))
        \<le> max_levels (pair_options 1 0) \<and>
      (num_rows (level_A (last (levels
          (smoothed_aggregation example_memory False (identity_matrix 1) [1] (pair_options 1 0)))))
         \<le> min_level_size (pair_options 1 0) \<or>
       length (levels (smoothed_aggregation example_memory False (identity_matrix 1) [1] (pair_options 1 0)))
         = max_levels (pair_options 1 0)))"
  by code_simp

text \<open>
  C2, amended.  When \<open>max_levels\<close> is at least 1, and at least 2 if
  \<open>rows(A0) > min_level_size\<close>, the number of levels built does not exceed \<open>max_levels\<close>, and
  at the end the operator of the last solver-facing level has at most \<open>min_level_size\<close>
  rows or the level count equals \<open>max_levels\<close>.  (The first coarsening step is guarded
  by \<open>min_level_size\<close> alone; lemma \<open>first_step_ignores_max_levels\<close> evaluates the case
  \<open>max_levels = 1\<close> that the hypothesis leaves out.)
\<close>

theorem C2_level_cap:
  assumes "1 \<le> max_levels opts"
    and "min_level_size opts < num_rows A \<Longrightarrow> 2 \<le> max_levels opts"
  shows "length (levels (smoothed_aggregation mem same_type A B opts)) \<le> max_levels opts \<and>
         (num_rows (level_A (last (levels (smoothed_aggregation mem same_type A B opts))))
            \<le> min_level_size opts \<or>
          length (levels (smoothed_aggregation mem same_type A B opts)) = max_levels opts)"
proof -
  let ?s = "smoothed_aggregation mem same_type A B opts"
  let ?c = "sa_coarsened mem same_type opts A B fresh"
  let ?n = "length (sa_levels ?c)"
  note S = construction_summary[OF fresh_ok, where mem = mem and t = same_type and opts = opts and A = A
      and B = B, folded smoothed_aggregation_def]
  have ci: "coarsening_inv ?c" by (rule coarsening_inv_coarsened[OF fresh_ok])
  then have pos: "0 < ?n" by (simp add: coarsening_inv_def)
  have len: "length (levels ?s) = ?n" by (rule S(1))
  have bound: "?n \<le> max_levels opts" by (rule coarsened_length_bound[OF assms])
  have ex: "num_rows (sa_A (last (sa_levels ?c))) \<le> min_level_size opts \<or> ?n = max_levels opts"
    using coarsened_exit[of opts mem same_type A B fresh] bound by auto
  have ne: "levels ?s \<noteq> []" using len pos by auto
  have lastA: "level_A (last (levels ?s)) = level_A (levels ?s ! (?n - 1))"
    using ne len by (simp add: last_conv_nth)
  have "num_rows (level_A (last (levels ?s))) \<le> min_level_size opts \<or> ?n = max_levels opts"
  proof (cases "?n = 1")
    case True
    then have "\<not> min_level_size opts < num_rows A"
      using coarsened_two_levels[of opts A mem same_type B fresh] by auto
    moreover have "num_rows (level_A (last (levels ?s))) = num_rows A"
      using True S(3) lastA by simp
    ultimately show ?thesis by simp
  next
    case False
    have k: "1 \<le> ?n - 1" "?n - 1 < ?n" using pos False by linarith+
    have "sa_levels ?c \<noteq> []" using pos by auto
    then have "sa_A (last (sa_levels ?c)) = sa_A (sa_levels ?c ! (?n - 1))"
      by (simp add: last_conv_nth)
    with S(4)[OF k] lastA have "level_A (last (levels ?s)) = sa_A (last (sa_levels ?c))"
      by simp
    with ex show ?thesis by simp
  qed
  with len bound show ?thesis by simp
qed

text \<open>
  The hypotheses of the amended C2 hold for \<open>max_levels = 2\<close> on the 4-row identity; the
  loop stops there because the cap is reached.
\<close>

theorem C2_level_cap_witness:
  "1 \<le> max_levels (pair_options 1 2) \<and> 2 \<le> max_levels (pair_options 1 2) \<and>
   length (levels (smoothed_aggregation example_memory False (identity_matrix 4) [1, 1, 1, 1] (pair_options 1 2)))
     \<le> max_levels (pair_options 1 2) \<and>
   length (levels (smoothed_aggregation example_memory False (identity_matrix 4) [1, 1, 1, 1] (pair_options 1 2)))
     = max_levels (pair_options 1 2)"
proof -
  have h: "1 \<le> max_levels (pair_options 1 2)" "2 \<le> max_levels (pair_options 1 2)"
    by (simp_all add: pair_options_def)
  have e: "length (levels (smoothed_aggregation example_memory False (identity_matrix 4) [1, 1, 1, 1]
             (pair_options 1 2))) = max_levels (pair_options 1 2)"
    by code_simp
  from C2_level_cap[OF h(1) h(2), where mem = example_memory and same_type = False and A = "identity_matrix 4"
      and B = "[1, 1, 1, 1]"] h e
  show ?thesis by blast
qed

text \<open>
  C3.  If \<open>rows(A0) \<le> min_level_size\<close> the construction leaves exactly one solver-facing
  level and one level record, and no strategy has been called.
\<close>

theorem C3_degenerate_input:
  assumes "num_rows A \<le> min_level_size opts"
  shows "length (levels (smoothed_aggregation mem same_type A B opts)) = 1 \<and>
         length (sa_levels (smoothed_aggregation mem same_type A B opts)) = 1 \<and>
         invoked (smoothed_aggregation mem same_type A B opts) = []"
  unfolding smoothed_aggregation_def
  using construction_summary(1,2,10)[OF fresh_ok, where mem = mem and t = same_type and opts = opts and A = A and B = B]
  by (simp add: coarsened_degenerate[OF assms] fresh_def)

text \<open>
  C3 on the 1-row identity with \<open>min_level_size = 1\<close>.
\<close>

theorem C3_degenerate_input_witness:
  "num_rows (identity_matrix 1) \<le> min_level_size (pair_options 1 10) \<and>
   length (levels (smoothed_aggregation example_memory True (identity_matrix 1) [1] (pair_options 1 10))) = 1 \<and>
   length (sa_levels (smoothed_aggregation example_memory True (identity_matrix 1) [1] (pair_options 1 10))) = 1 \<and>
   invoked (smoothed_aggregation example_memory True (identity_matrix 1) [1] (pair_options 1 10)) = []"
proof -
  have h: "num_rows (identity_matrix 1) \<le> min_level_size (pair_options 1 10)"
    by (simp add: identity_matrix_def pair_options_def)
  from C3_degenerate_input[OF h, where mem = example_memory and same_type = True
      and B = "[1]"] h show ?thesis by blast
qed

text \<open>
  C4.  If \<open>rows(A0) \<le> min_level_size\<close> the coarse solver is constructed from the operator
  member of the only level record, which is still the empty matrix of its default
  construction, and so not from \<open>A0\<close> (unless \<open>A0\<close> is itself that empty matrix).
\<close>

theorem C4_degenerate_coarse_solver:
  assumes "num_rows A \<le> min_level_size opts"
  shows "length (sa_levels (smoothed_aggregation mem same_type A B opts)) = 1 \<and>
         sa_A (last (sa_levels (smoothed_aggregation mem same_type A B opts))) = empty_matrix \<and>
         solver (smoothed_aggregation mem same_type A B opts) = SolverType empty_matrix \<and>
         (A \<noteq> empty_matrix \<longrightarrow>
            solver (smoothed_aggregation mem same_type A B opts) \<noteq> SolverType A)"
proof -
  let ?s = "smoothed_aggregation mem same_type A B opts"
  note S = construction_summary[OF fresh_ok, where mem = mem and t = same_type and opts = opts and A = A and B = B,
      folded smoothed_aggregation_def, unfolded coarsened_degenerate[OF assms]]
  have 1: "length (sa_levels ?s) = 1" using S(2) by simp
  have "sa_A (sa_levels ?s ! 0) = empty_matrix"
    using S(5)[of 0] by (simp add: new_sa_level_def)
  with 1 have 2: "sa_A (last (sa_levels ?s)) = empty_matrix"
    by (cases "sa_levels ?s") simp_all
  have 3: "solver ?s = SolverType empty_matrix"
    using S(9) by (simp add: new_sa_level_def)
  from 1 2 3 show ?thesis by simp
qed

text \<open>
  C4 on the 1-row identity, which is not the empty matrix.
\<close>

theorem C4_degenerate_coarse_solver_witness:
  "num_rows (identity_matrix 1) \<le> min_level_size (pair_options 1 10) \<and>
   identity_matrix 1 \<noteq> empty_matrix \<and>
   solver (smoothed_aggregation example_memory False (identity_matrix 1) [1] (pair_options 1 10)) =
     SolverType empty_matrix \<and>
   solver (smoothed_aggregation example_memory False (identity_matrix 1) [1] (pair_options 1 10)) \<noteq>
     SolverType (identity_matrix 1)"
proof -
  have h: "num_rows (identity_matrix 1) \<le> min_level_size (pair_options 1 10)"
    by (simp add: identity_matrix_def pair_options_def)
  have n: "identity_matrix 1 \<noteq> empty_matrix"
    by (simp add: identity_matrix_def empty_matrix_def)
  from C4_degenerate_coarse_solver[OF h, where mem = example_memory and same_type = False
      and B = "[1]"] h n show ?thesis by blast
qed

text \<open>
  C5.  For every input the operator of solver-facing level 0 ends with the three
  dimension fields of the input and no stored entries; the transfer loop, which starts
  at level 1, leaves the operator of level 0 of any state as it was.
\<close>

theorem C5_level0_operator_storage:
  "levels (smoothed_aggregation mem same_type A B opts) \<noteq> [] \<and>
   level_A (levels (smoothed_aggregation mem same_type A B opts) ! 0) =
     \<lparr>num_rows = num_rows A, num_cols = num_cols A, num_entries = num_entries A,
      entries = []\<rparr> \<and>
   level_A (levels (setup_levels same_type 1 s) ! 0) = level_A (levels s ! 0)"
proof -
  note S = construction_summary[OF fresh_ok, where mem = mem and t = same_type and opts = opts and A = A
      and B = B, folded smoothed_aggregation_def]
  have "coarsening_inv (sa_coarsened mem same_type opts A B fresh)"
    by (rule coarsening_inv_coarsened[OF fresh_ok])
  then have "0 < length (levels (smoothed_aggregation mem same_type A B opts))"
    using S(1) by (simp add: coarsening_inv_def)
  with S(3) setup_levels_keeps_level0[of same_type s] show ?thesis by simp
qed

text \<open>
  C6.  The claim: \<open>sa_initialize\<close> on an object that already holds a hierarchy leaves
  the hierarchy that a new object gets from the same input.  The reset empties
  \<^verbatim>\<open>sa_levels\<close> and keeps its capacity, and \<open>extend_hierarchy\<close> sizes the residual by
  \<^verbatim>\<open>A.num_rows\<close> after a \<^verbatim>\<open>push_back\<close> on the vector that \<open>A\<close> refers into.  On the
  18-row identity with \<open>min_level_size = 1\<close> (levels of 18, 9, 5, 3, 2 and 1 unknowns)
  and \<open>example_memory\<close>, the new object reallocates at its third and fifth level record
  and sizes the residual of level 1 by a dangling read; the object built a second time
  has room for eight level records and never reallocates.  The two hierarchies differ
  in the residual of level 1.
\<close>

theorem C6_rebuild_differs:
  "map (\<lambda>l. length (residual l))
     (levels (smoothed_aggregation example_memory False (identity_matrix 18) (replicate 18 1)
        (pair_options 1 10))) = [18, 4, 5, 3, 2, 0] \<and>
   map (\<lambda>l. length (residual l))
     (levels (sa_initialize example_memory False (pair_options 1 10) (identity_matrix 18)
        (replicate 18 1)
        (smoothed_aggregation example_memory False (identity_matrix 18) (replicate 18 1)
           (pair_options 1 10)))) = [18, 9, 5, 3, 2, 0] \<and>
   hierarchy (sa_initialize example_memory False (pair_options 1 10) (identity_matrix 18)
        (replicate 18 1)
        (smoothed_aggregation example_memory False (identity_matrix 18) (replicate 18 1)
           (pair_options 1 10))) \<noteq>
   hierarchy (smoothed_aggregation example_memory False (identity_matrix 18) (replicate 18 1)
        (pair_options 1 10))"
proof -
  let ?new = "smoothed_aggregation example_memory False (identity_matrix 18) (replicate 18 1)
        (pair_options 1 10)"
  let ?again = "sa_initialize example_memory False (pair_options 1 10) (identity_matrix 18)
        (replicate 18 1) ?new"
  have n: "map (\<lambda>l. length (residual l)) (levels ?new) = [18, 4, 5, 3, 2, 0]"
    by code_simp
  have a: "map (\<lambda>l. length (residual l)) (levels ?again) = [18, 9, 5, 3, 2, 0]"
    by code_simp
  have "hierarchy ?again \<noteq> hierarchy ?new"
  proof
    assume "hierarchy ?again = hierarchy ?new"
    then have "levels ?again = levels ?new"
      by (simp add: hierarchy_def)
    then have "map (\<lambda>l. length (residual l)) (levels ?again) =
               map (\<lambda>l. length (residual l)) (levels ?new)"
      by (rule arg_cong)
    then show False
      unfolding n a by simp
  qed
  with n a show ?thesis by blast
qed

text \<open>
  C7.  Suppose the strategies keep their shape contracts: the strength matrix has the
  rows of the operator, \<^verbatim>\<open>aggregate\<close> keeps the length of the array, the tentative
  prolongator has one row per entry of the aggregates array, smoothing keeps the rows,
  the restriction has the transposed shape, and the Galerkin product has the rows of
  the restriction.  Then for every level \<open>k\<close> that has a successor,
  \<open>rows(R\<^sub>k) = cols(P\<^sub>k) = rows(A\<^bsub>k+1\<^esub>)\<close>, \<open>cols(R\<^sub>k) = rows(P\<^sub>k) = rows(A\<^sub>k)\<close>, and the
  aggregates array of level record \<open>k\<close> has length \<open>rows(A\<^sub>k)\<close>.
\<close>

theorem C7_dimension_chain:
  assumes "\<And>M. num_rows (strength_of_connection opts M) = num_rows M"
    and "\<And>C ags. length (aggregate opts C ags) = length ags"
    and "\<And>ags B. num_rows (fst (fit_candidates opts ags B)) = length ags"
    and "\<And>M T rho. num_rows (fst (smooth_prolongator opts M T rho)) = num_rows T"
    and "\<And>P. num_rows (form_restriction opts P) = num_cols P \<and>
              num_cols (form_restriction opts P) = num_rows P"
    and "\<And>R M P. num_rows (galerkin_product opts R M P) = num_rows R"
  shows "\<forall>k. Suc k < length (levels (smoothed_aggregation mem same_type A B opts)) \<longrightarrow>
     num_rows (level_R (levels (smoothed_aggregation mem same_type A B opts) ! k)) =
       num_cols (level_P (levels (smoothed_aggregation mem same_type A B opts) ! k)) \<and>
     num_cols (level_P (levels (smoothed_aggregation mem same_type A B opts) ! k)) =
       num_rows (level_A (levels (smoothed_aggregation mem same_type A B opts) ! Suc k)) \<and>
     num_cols (level_R (levels (smoothed_aggregation mem same_type A B opts) ! k)) =
       num_rows (level_P (levels (smoothed_aggregation mem same_type A B opts) ! k)) \<and>
     num_rows (level_P (levels (smoothed_aggregation mem same_type A B opts) ! k)) =
       num_rows (level_A (levels (smoothed_aggregation mem same_type A B opts) ! k)) \<and>
     length (aggregates (sa_levels (smoothed_aggregation mem same_type A B opts) ! k)) =
       num_rows (level_A (levels (smoothed_aggregation mem same_type A B opts) ! k))"
proof (intro allI impI)
  let ?s = "smoothed_aggregation mem same_type A B opts"
  let ?c = "sa_coarsened mem same_type opts A B fresh"
  fix k assume k: "Suc k < length (levels ?s)"
  note S = construction_summary[OF fresh_ok, where mem = mem and t = same_type and opts = opts and A = A
      and B = B, folded smoothed_aggregation_def]
  have con: "shape_contracts opts"
    unfolding shape_contracts_def using assms by blast
  have dc: "dim_chain A ?c" by (rule dim_chain_coarsened[OF con fresh_ok])
  from k have kc: "Suc k < length (sa_levels ?c)" by (simp add: S(1))
  then have k0: "k < length (sa_levels ?c)" by simp
  from dc kc have D:
      "num_rows (level_R (levels ?c ! k)) = num_cols (level_P (levels ?c ! k))"
      "num_cols (level_P (levels ?c ! k)) = num_rows (sa_A (sa_levels ?c ! Suc k))"
      "num_cols (level_R (levels ?c ! k)) = num_rows (level_P (levels ?c ! k))"
      "num_rows (level_P (levels ?c ! k)) =
          (if k = 0 then num_rows A else num_rows (sa_A (sa_levels ?c ! k)))"
      "length (aggregates (sa_levels ?c ! k)) =
          (if k = 0 then num_rows A else num_rows (sa_A (sa_levels ?c ! k)))"
    unfolding dim_chain_def by blast+
  have A1: "level_A (levels ?s ! Suc k) = sa_A (sa_levels ?c ! Suc k)"
    by (rule S(4)[OF _ kc]) simp
  have Ak: "num_rows (level_A (levels ?s ! k)) =
      (if k = 0 then num_rows A else num_rows (sa_A (sa_levels ?c ! k)))"
  proof (cases "k = 0")
    case True
    then show ?thesis using S(3) by simp
  next
    case False
    then have "1 \<le> k" by simp
    from S(4)[OF this k0] False show ?thesis by simp
  qed
  show "num_rows (level_R (levels ?s ! k)) = num_cols (level_P (levels ?s ! k)) \<and>
     num_cols (level_P (levels ?s ! k)) = num_rows (level_A (levels ?s ! Suc k)) \<and>
     num_cols (level_R (levels ?s ! k)) = num_rows (level_P (levels ?s ! k)) \<and>
     num_rows (level_P (levels ?s ! k)) = num_rows (level_A (levels ?s ! k)) \<and>
     length (aggregates (sa_levels ?s ! k)) = num_rows (level_A (levels ?s ! k))"
    unfolding S(6)[OF k0] S(7)[OF k0] S(8)[OF k0] A1 Ak
    using D by simp
qed

text \<open>
  C7 at level 0 of the hierarchy of the 4-row identity, whose strategies satisfy the
  contracts (\<open>pair_options_contracts\<close>).
\<close>

theorem C7_dimension_chain_witness:
  "Suc 0 < length (levels (smoothed_aggregation example_memory True (identity_matrix 4) [1, 1, 1, 1]
      (pair_options 1 10))) \<and>
   num_rows (level_R (levels (smoothed_aggregation example_memory True (identity_matrix 4) [1, 1, 1, 1]
      (pair_options 1 10)) ! 0)) =
   num_cols (level_P (levels (smoothed_aggregation example_memory True (identity_matrix 4) [1, 1, 1, 1]
      (pair_options 1 10)) ! 0)) \<and>
   num_cols (level_P (levels (smoothed_aggregation example_memory True (identity_matrix 4) [1, 1, 1, 1]
      (pair_options 1 10)) ! 0)) =
   num_rows (level_A (levels (smoothed_aggregation example_memory True (identity_matrix 4) [1, 1, 1, 1]
      (pair_options 1 10)) ! Suc 0)) \<and>
   num_rows (level_P (levels (smoothed_aggregation example_memory True (identity_matrix 4) [1, 1, 1, 1]
      (pair_options 1 10)) ! 0)) = 4 \<and>
   length (aggregates (sa_levels (smoothed_aggregation example_memory True (identity_matrix 4) [1, 1, 1, 1]
      (pair_options 1 10)) ! 0)) = 4"
proof -
  let ?s = "smoothed_aggregation example_memory True (identity_matrix 4) [1, 1, 1, 1] (pair_options 1 10)"
  have k: "Suc 0 < length (levels ?s)" by code_simp
  have a: "num_rows (level_A (levels ?s ! 0)) = 4" by code_simp
  from C7_dimension_chain[OF pair_options_contracts, rule_format, OF k] k a
  show ?thesis by simp
qed

text \<open>
  C8.  Whichever overload of \<^verbatim>\<open>setup_level_matrix\<close> is chosen, the destination ends
  with the matrix the source had; the swap gives the source what the destination had.
  Built with either overload, the hierarchy has the same solver-facing operators, and
  with the swap every level record's operator is the empty matrix at the end.
\<close>

theorem C8_setup_level_matrix_paths:
  "fst (setup_level_matrix same_type dst src) = src \<and>
   (same_type \<longrightarrow> snd (setup_level_matrix same_type dst src) = dst) \<and>
   length (levels (smoothed_aggregation mem True A B opts)) =
     length (levels (smoothed_aggregation mem False A B opts)) \<and>
   (\<forall>k < length (levels (smoothed_aggregation mem True A B opts)).
      level_A (levels (smoothed_aggregation mem True A B opts) ! k) =
      level_A (levels (smoothed_aggregation mem False A B opts) ! k)) \<and>
   (\<forall>k < length (sa_levels (smoothed_aggregation mem True A B opts)).
      sa_A (sa_levels (smoothed_aggregation mem True A B opts) ! k) = empty_matrix)"
proof -
  let ?T = "smoothed_aggregation mem True A B opts" and ?F = "smoothed_aggregation mem False A B opts"
  let ?c = "sa_coarsened mem True opts A B fresh"
  note ST = construction_summary[OF fresh_ok, where mem = mem and t = True and opts = opts and A = A
      and B = B, folded smoothed_aggregation_def]
  note SF = construction_summary[OF fresh_ok, where mem = mem and t = False and opts = opts and A = A
      and B = B, folded smoothed_aggregation_def,
      unfolded sa_coarsened_same_type[of _ False _ _ _ _ True]]
  have ci: "coarsening_inv ?c" by (rule coarsening_inv_coarsened[OF fresh_ok])
  then have a0: "sa_A (sa_levels ?c ! 0) = empty_matrix" by (simp add: coarsening_inv_def)
  have 1: "fst (setup_level_matrix same_type dst src) = src" by simp
  have 2: "same_type \<longrightarrow> snd (setup_level_matrix same_type dst src) = dst"
    by (simp add: setup_level_matrix_snd)
  have 3: "length (levels ?T) = length (levels ?F)" by (simp only: ST(1) SF(1))
  have 4: "level_A (levels ?T ! k) = level_A (levels ?F ! k)" if "k < length (levels ?T)" for k
  proof (cases "k = 0")
    case True
    then show ?thesis by (simp only: ST(3) SF(3))
  next
    case False
    then have "1 \<le> k" by simp
    moreover from that have "k < length (sa_levels ?c)" by (simp only: ST(1))
    ultimately show ?thesis by (simp only: ST(4) SF(4))
  qed
  have 5: "sa_A (sa_levels ?T ! k) = empty_matrix" if "k < length (sa_levels ?T)" for k
  proof -
    from that have k: "k < length (sa_levels ?c)" by (simp only: ST(2))
    show ?thesis
    proof (cases "k = 0")
      case True
      with ST(5)[OF k] a0 show ?thesis by simp
    next
      case False
      with ST(5)[OF k] show ?thesis by simp
    qed
  qed
  from 1 2 3 4 5 show ?thesis by blast
qed

text \<open>
  C8 on a swap into an empty destination and on level 1 of the hierarchy of the 4-row
  identity.
\<close>

theorem C8_setup_level_matrix_paths_witness:
  "fst (setup_level_matrix True empty_matrix (identity_matrix 2)) = identity_matrix 2 \<and>
   snd (setup_level_matrix True empty_matrix (identity_matrix 2)) = empty_matrix \<and>
   Suc 0 < length (levels (smoothed_aggregation example_memory True (identity_matrix 4) [1, 1, 1, 1]
      (pair_options 1 10))) \<and>
   level_A (levels (smoothed_aggregation example_memory True (identity_matrix 4) [1, 1, 1, 1]
      (pair_options 1 10)) ! Suc 0) =
   level_A (levels (smoothed_aggregation example_memory False (identity_matrix 4) [1, 1, 1, 1]
      (pair_options 1 10)) ! Suc 0) \<and>
   level_A (levels (smoothed_aggregation example_memory True (identity_matrix 4) [1, 1, 1, 1]
      (pair_options 1 10)) ! Suc 0) = identity_matrix 2 \<and>
   Suc 0 < length (sa_levels (smoothed_aggregation example_memory True (identity_matrix 4) [1, 1, 1, 1]
      (pair_options 1 10))) \<and>
   sa_A (sa_levels (smoothed_aggregation example_memory True (identity_matrix 4) [1, 1, 1, 1]
      (pair_options 1 10)) ! Suc 0) = empty_matrix"
proof -
  let ?T = "smoothed_aggregation example_memory True (identity_matrix 4) [1, 1, 1, 1] (pair_options 1 10)"
  note W = C8_setup_level_matrix_paths[where mem = example_memory and same_type = True and dst = empty_matrix
      and src = "identity_matrix 2" and A = "identity_matrix 4" and B = "[1, 1, 1, 1]"
      and opts = "pair_options 1 10"]
  have k: "Suc 0 < length (levels ?T)" by code_simp
  have k': "Suc 0 < length (sa_levels ?T)" by code_simp
  have v: "level_A (levels ?T ! Suc 0) = identity_matrix 2" by code_simp
  from W have "fst (setup_level_matrix True empty_matrix (identity_matrix 2)) = identity_matrix 2"
    by (rule conjunct1)
  moreover from W have "snd (setup_level_matrix True empty_matrix (identity_matrix 2)) = empty_matrix"
    by simp
  moreover from W k have "level_A (levels ?T ! Suc 0) =
      level_A (levels (smoothed_aggregation example_memory False (identity_matrix 4) [1, 1, 1, 1]
        (pair_options 1 10)) ! Suc 0)"
    by blast
  moreover from W k' have "sa_A (sa_levels ?T ! Suc 0) = empty_matrix"
    by blast
  ultimately show ?thesis using k k' v by blast
qed

text \<open>
  C9.  Constructing the hierarchy without a candidate vector gives the same object as
  constructing it with the all-ones vector of length \<open>num_rows A0\<close>.
\<close>

theorem C9_candidate_default:
  "smoothed_aggregation_A mem same_type A0 opts =
   smoothed_aggregation mem same_type A0 (replicate (num_rows A0) 1) opts"
  by (simp add: smoothed_aggregation_A_def smoothed_aggregation_def sa_initialize_A_def
      constant_array_def)



end
